theory Spec2Isabelle
  imports Main "HOL-Library.Sublist"
begin

section \<open>The broker transport of the VistA RPC client\<close>

text \<open>
  The development embeds the module \<^verbatim>\<open>patient_dfn_lookup/src/broker_rpc.py\<close>:
  the obfuscation cipher, the framing engine of \<^verbatim>\<open>RPCConnection\<close>, the
  handshake and the request grammar of \<^verbatim>\<open>VistARPCConnection\<close>, the length
  header of \<^verbatim>\<open>CIARPCConnection\<close> and the pool \<^verbatim>\<open>RPCConnectionPool\<close>.

  Python text (\<^verbatim>\<open>str\<close>) is a \<^typ>\<open>string\<close>: a list of characters with codes
  below 256, so \<^verbatim>\<open>chr(n)\<close> is \<open>char_of n\<close> for \<open>n < 256\<close>. The socket
  of the model carries text: what is sent is recorded before \<^verbatim>\<open>encode('utf-8')\<close>
  and what is received is the chunk after \<^verbatim>\<open>decode('utf-8')\<close>. The bytes that
  \<^verbatim>\<open>encode('utf-8')\<close> makes of a text are given by \<open>encode_utf8\<close> below. The
  logger has no effect on any result and is left out.
\<close>

subsection \<open>Outcomes of a call\<close>

text \<open>
  A call returns a value, raises an exception, or never returns (it blocks on the socket or
  on the queue, or loops for ever). \<open>SocketError\<close> stands for \<^verbatim>\<open>socket.error\<close>
  (\<^verbatim>\<open>OSError\<close>); \<open>Exception tag msg\<close> for the two-argument
  \<^verbatim>\<open>Exception(tag, msg)\<close> of the handshake.
\<close>

datatype exn =
    SocketError
  | IndexError
  | AttributeError
  | TypeError
  | ValueError
  | Exception string string

datatype 'a result = Return 'a | Raise exn | Hang

subsection \<open>The obfuscation cipher\<close>

definition CIPHER :: "string list" where
  "CIPHER =
    [''wkEo-ZJt!dG)49K{nX1BS$vH<&:Myf*>Ae0jQW=;|#PsO`'' @ [CHR 0x27] @ ''%+rmb[gpqN,l6/hFC@DcUa ]z~R}'' @ [CHR 0x22] @ ''V'' @ [CHR 0x5C] @ ''iIxu?872.(TYL5_3'',
     ''rKv`R;M/9BqAF%&tSs#Vh)dO1DZP> *fX'' @ [CHR 0x27] @ ''u[.4lY=-mg_ci802N7LTG<]!CWo:3?{+,5Q}(@jaExn$~p'' @ [CHR 0x5C] @ ''IyHwzU'' @ [CHR 0x22] @ ''|k6Jeb'',
     [CHR 0x5C] @ ''pV(ZJk'' @ [CHR 0x22] @ ''WQmCn!Y,y@1d+~8s?[lNMxgHEt=uw|X:qSLjAI*}6zoF{T3#;ca)/h5%`P4$r]G'' @ [CHR 0x27] @ ''9e2if_>UDKb7<v0&- RBO.'',
     ''depjt3g4W)qD0V~NJar'' @ [CHR 0x5C] @ ''B '' @ [CHR 0x22] @ ''?OYhcu[<Ms%Z`RIL_6:]AX-zG.#}$@vk7/5x&*m;(yb2Fn+l'' @ [CHR 0x27] @ ''PwUof1K{9,|EQi>H=CT8S!'',
     ''NZW:1}K$byP;jk)7'' @ [CHR 0x27] @ ''`x90B|cq@iSsEnu,(l-hf.&Y_?J#R]+voQXU8mrV[!p4tg~OMez CAaGFD6H53%L/dT2<*>'' @ [CHR 0x22] @ ''{'' @ [CHR 0x5C] @ ''wI='',
     ''vCiJ<oZ9|phXVNn)m K`t/SI%]A5qOWe'' @ [CHR 0x5C] @ ''&?;jT~M!fz1l>[D_0xR32c*4.P'' @ [CHR 0x22] @ ''G{r7}E8wUgyudF+6-:B=$(sY,LkbHa#'' @ [CHR 0x27] @ ''@Q'',
     ''hvMX,'' @ [CHR 0x27] @ ''4Ty;[a8/{6l~F_V'' @ [CHR 0x22] @ ''}qLI'' @ [CHR 0x5C] @ ''!@x(D7bRmUH]W15J%N0BYPkrs&9:$)Zj>u|zwQ=ieC-oGA.#?tfdcO3gp`S+En K2*<'',
     ''jd!W5[];4'' @ [CHR 0x27] @ ''<C$/&x|rZ(k{>?ghBzIFN}fAK'' @ [CHR 0x22] @ ''#`p_TqtD*1E37XGVs@0nmSe+Y6Qyo-aUu%i8c=H2vJ'' @ [CHR 0x5C] @ '') R:MLb.9,wlO~P'',
     ''2ThtjEM+!=xXb)7,ZV{*ci3'' @ [CHR 0x22] @ ''8@_l-HS69L>]'' @ [CHR 0x5C] @ ''AUF/Q%:qD?1~m(yvO0e'' @ [CHR 0x27] @ ''<#o$p4dnIzKP|`NrkaGg.ufCRB[; sJYwW}5&'',
     ''vB'' @ [CHR 0x5C] @ ''5/zl-9y:Pj|=(R'' @ [CHR 0x27] @ ''7QJI *&CTX'' @ [CHR 0x22] @ ''p0]_3.idcuOefVU#omwNZ`$Fs?L+1Sk<,b)hM4A6[Y%aDrg@~KqEW8t>H};n!2xG{'',
     ''sFz0Bo@_HfnK>LR}qWXV+D6`Y28=4Cm~G/7-5A'' @ [CHR 0x5C] @ ''b9!a#rP.l&M$hc3ijQk;),TvUd<[:I'' @ [CHR 0x22] @ ''u1'' @ [CHR 0x27] @ ''NZSOw]*gxtE{eJp|y (?%'',
     ''M@,D}|LJyGO8`$*ZqH .j>c~h<d=fimszv[#-53F!+a;NC'' @ [CHR 0x27] @ ''6T91IV?(0x&/{B)w'' @ [CHR 0x22] @ '']Q'' @ [CHR 0x5C] @ ''YUWprk4:ol%g2nE7teRKbAPuS_X'',
     ''.mjY#_0*H<B=Q+FML6]s;r2:e8R}[ic&KA 1w{)vV5d,$u'' @ [CHR 0x22] @ ''~xD/Pg?IyfthO@CzWp%!`N4Z'' @ [CHR 0x27] @ ''3-(o|J9XUE7k'' @ [CHR 0x5C] @ ''TlqSb>anG'',
     ''xVa1'' @ [CHR 0x27] @ '']_GU<X`|'' @ [CHR 0x5C] @ ''NgM?LS9{'' @ [CHR 0x22] @ ''jT%s$}y[nvtlefB2RKJW~(/cIDCPow4,>#zm+:5b@06O3Ap8=*7ZFY!H-uEQk; .q)i&rhd'',
     ''I]Jz7AG@QX.'' @ [CHR 0x22] @ ''%3Lq>METUo{Pp_ |a6<0dYVSv8:b)~W9NK`(r'' @ [CHR 0x27] @ ''4fs&wim'' @ [CHR 0x5C] @ ''kReC2hg=HOj$1B*/nxt,;c#y+![?lFuZ-5D}'',
     ''Rr(Ge6F Hx>q$m&C%M~Tn,:'' @ [CHR 0x22] @ ''o'' @ [CHR 0x27] @ ''tX/*yP.{lZ!YkiVhuw_<KE5a[;}W0gjsz3]@7cI2'' @ [CHR 0x5C] @ ''QN?f#4p|vb1OUBD9)=-LJA+d`S8'',
     ''I~k>y|m};d)-7DZ'' @ [CHR 0x22] @ ''Fe/Y<B:xwojR,Vh]O0Sc[`$sg8GXE!1&Qrzp._W%TNK(=J 3i*2abuHA4C'' @ [CHR 0x27] @ ''?Mv'' @ [CHR 0x5C] @ ''Pq{n#56LftUl@9+'',
     ''~A*>9 WidFN,1KsmwQ)GJM{I4:C%}#Ep(?HB/r;t.&U8o|l['' @ [CHR 0x27] @ ''Lg'' @ [CHR 0x22] @ ''2hRDyZ5`nbf]qjc0!zS-TkYO<_=76a'' @ [CHR 0x5C] @ ''X@$Pe3+xVvu'',
     ''yYgjf'' @ [CHR 0x22] @ ''5VdHc#uA,W1i+v'' @ [CHR 0x27] @ ''6|@pr{n;DJ!8(btPGaQM.LT3oe?NB/&9>Z`-}02*%x<7lsqz4OS ~E$'' @ [CHR 0x5C] @ ''R]KI[:UwC_=h)kXmF'',
     ''5:iar.{YU7mBZR@-K|2 '' @ [CHR 0x22] @ ''+~`M%8sq4JhPo<_X'' @ [CHR 0x5C] @ ''Sg3WC;Tuxz,fvEQ1p9=w}FAI&j/keD0c?)LN6OHV]lGy'' @ [CHR 0x27] @ ''$*>nd[(tb!#'']"

text \<open>\<^verbatim>\<open>s.find(c)\<close> for a one-character \<open>c\<close>: the first index, or \<open>-1\<close>.\<close>

fun find_str :: "string \<Rightarrow> char \<Rightarrow> int" where
  "find_str [] c = -1"
| "find_str (x # xs) c =
     (if x = c then 0
      else (let r = find_str xs c in if r = -1 then -1 else r + 1))"

text \<open>
  \<^verbatim>\<open>randint(0, 18)\<close> reads the random generator. The generator is an oracle: the
  list of the numbers it will produce, each reduced into the range of the call. An
  exhausted oracle means that the call does not return.
\<close>

fun randint :: "nat \<Rightarrow> nat \<Rightarrow> nat list \<Rightarrow> (nat \<times> nat list) option" where
  "randint lo hi [] = None"
| "randint lo hi (r # rs) = Some (lo + r mod (hi - lo + 1), rs)"

text \<open>The loop \<^verbatim>\<open>while ((rb == ra) or (rb == 0)): rb = randint(0, 18)\<close>.\<close>

fun redraw :: "nat \<Rightarrow> nat \<Rightarrow> nat list \<Rightarrow> (nat \<times> nat list) option" where
  "redraw ra rb [] = (if rb = ra \<or> rb = 0 then None else Some (rb, []))"
| "redraw ra rb (r # rs) =
     (if rb = ra \<or> rb = 0 then redraw ra (0 + r mod (18 - 0 + 1)) rs
      else Some (rb, r # rs))"

text \<open>The first lines of \<^verbatim>\<open>encrypt\<close>: the two row indices.\<close>

definition pick_rows :: "nat list \<Rightarrow> (nat \<times> nat \<times> nat list) option" where
  "pick_rows rs =
     (case randint 0 18 rs of
        None \<Rightarrow> None
      | Some (ra, rs1) \<Rightarrow>
          (case randint 0 18 rs1 of
             None \<Rightarrow> None
           | Some (rb, rs2) \<Rightarrow>
               (case redraw ra rb rs2 of
                  None \<Rightarrow> None
                | Some (rb', rs3) \<Rightarrow> Some (ra, rb', rs3))))"

text \<open>
  The body of the loop over the plaintext: one output character for the input character
  \<open>c\<close>. \<^verbatim>\<open>crb[index]\<close> raises \<^verbatim>\<open>IndexError\<close> beyond the end of the row.
\<close>

definition encrypt_char :: "string \<Rightarrow> string \<Rightarrow> char \<Rightarrow> char result" where
  "encrypt_char cra crb c =
     (let index = find_str cra c in
      if index = -1 then Return c
      else if nat index < length crb then Return (crb ! nat index)
      else Raise IndexError)"

fun encrypt_loop :: "string \<Rightarrow> string \<Rightarrow> string \<Rightarrow> string \<Rightarrow> string result" where
  "encrypt_loop cra crb [] cval = Return cval"
| "encrypt_loop cra crb (c # val) cval =
     (case encrypt_char cra crb c of
        Return x \<Rightarrow> encrypt_loop cra crb val (cval @ [x])
      | Raise e \<Rightarrow> Raise e
      | Hang \<Rightarrow> Hang)"

text \<open>
  \<^verbatim>\<open>encrypt(val)\<close>, from the oracle to the text and the rest of the oracle. The
  source returns the text encoded as UTF-8 and its callers decode it again.
\<close>

definition encrypt :: "nat list \<Rightarrow> string \<Rightarrow> string result \<times> nat list" where
  "encrypt rs val =
     (case pick_rows rs of
        None \<Rightarrow> (Hang, [])
      | Some (ra, rb, rs') \<Rightarrow>
          (case encrypt_loop (CIPHER ! ra) (CIPHER ! rb) val [char_of (ra + 32)] of
             Return cval \<Rightarrow> (Return (cval @ [char_of (rb + 32)]), rs')
           | Raise e \<Rightarrow> (Raise e, rs')
           | Hang \<Rightarrow> (Hang, rs')))"


subsection \<open>Sockets, the network and the transport\<close>

text \<open>
  The object behind \<^verbatim>\<open>self.sock\<close> is a socket that has been created, connected or
  closed. The operating system raises \<^verbatim>\<open>socket.error\<close> for \<^verbatim>\<open>send\<close> and
  \<^verbatim>\<open>recv\<close> on a socket that is not connected.
\<close>

datatype sock_state = Unconnected | Connected | Closed

text \<open>
  What \<^verbatim>\<open>recv(256)\<close> gives after decoding: a chunk of text (the empty chunk when
  the peer has closed the connection) or a socket error.
\<close>

datatype recv_event = Data string | RecvError

datatype broker = VistA | CIA

text \<open>
  The fields of \<^verbatim>\<open>RPCConnection\<close>; \<open>kind\<close> is the class of the object,
  \<open>appcontext\<close> the field \<^verbatim>\<open>context\<close>, and \<open>sequence\<close> and \<open>uid\<close> exist
  in \<^verbatim>\<open>CIARPCConnection\<close> only. \<open>sock = None\<close> is \<^verbatim>\<open>self.sock = None\<close>.
\<close>

record connection =
  kind :: broker
  host :: string
  port :: int
  access :: string
  verify :: string
  appcontext :: string
  endMark :: char
  poolId :: int
  sock :: "sock_state option"
  sequence :: nat
  uid :: string

text \<open>
  The environment is a script: the outcome of each TCP connection attempt to come
  (\<open>True\<close> when it is established), of each \<^verbatim>\<open>send\<close> to come, of each
  \<^verbatim>\<open>recv\<close> to come, and the random numbers to come. A call that finds its script
  exhausted never returns. \<open>localip\<close> is the result of
  \<^verbatim>\<open>socket.gethostbyname(socket.gethostname())\<close>, \<open>None\<close> when the lookup
  fails. \<open>wire\<close> records what has been sent and \<open>opened\<close> counts the TCP connections
  established.
\<close>

record world =
  localip :: "string option"
  connects :: "bool list"
  sends :: "bool list"
  recvs :: "recv_event list"
  rands :: "nat list"
  wire :: "string list"
  opened :: nat

type_synonym state = "connection \<times> world"

type_synonym 'a prog = "state \<Rightarrow> 'a result \<times> state"

definition ret :: "'a \<Rightarrow> 'a prog" where
  "ret v = (\<lambda>s. (Return v, s))"

definition raise :: "exn \<Rightarrow> 'a prog" where
  "raise e = (\<lambda>s. (Raise e, s))"

definition bind :: "'a prog \<Rightarrow> ('a \<Rightarrow> 'b prog) \<Rightarrow> 'b prog" where
  "bind m f = (\<lambda>s. case m s of
       (Return v, s') \<Rightarrow> f v s'
     | (Raise e, s') \<Rightarrow> (Raise e, s')
     | (Hang, s') \<Rightarrow> (Hang, s'))"

text \<open>\<^verbatim>\<open>try: ... except socket.error as e: print(e); msg = ""\<close>\<close>

definition except_socket_error :: "string prog \<Rightarrow> string prog" where
  "except_socket_error m = (\<lambda>s. case m s of
       (Raise SocketError, s') \<Rightarrow> (Return [], s')
     | r \<Rightarrow> r)"

definition sock_send :: "string \<Rightarrow> unit prog" where
  "sock_send request = (\<lambda>(c, w).
     case sock c of
       None \<Rightarrow> (Raise AttributeError, (c, w))
     | Some Connected \<Rightarrow>
         (case sends w of
            [] \<Rightarrow> (Hang, (c, w))
          | ok # rest \<Rightarrow>
              if ok then (Return (), (c, w\<lparr>sends := rest, wire := wire w @ [request]\<rparr>))
              else (Raise SocketError, (c, w\<lparr>sends := rest\<rparr>)))
     | Some _ \<Rightarrow> (Raise SocketError, (c, w)))"


text \<open>
  The loop of \<^verbatim>\<open>readToEndMarker\<close> over the chunks to come. \<^verbatim>\<open>msgChunk[-1]\<close>
  raises \<^verbatim>\<open>IndexError\<close> when stripping the two leading characters has emptied the
  chunk.
\<close>

fun read_chunks ::
  "char \<Rightarrow> string list \<Rightarrow> recv_event list \<Rightarrow> string list result \<times> recv_event list" where
  "read_chunks em msgChunks [] = (Hang, [])"
| "read_chunks em msgChunks (RecvError # evs) = (Raise SocketError, evs)"
| "read_chunks em msgChunks (Data msgChunk # evs) =
     (if msgChunk = [] then (Return msgChunks, evs)
      else
        (let msgChunk =
               (if msgChunks = [] \<and> hd msgChunk = CHR 0x00 then drop 2 msgChunk
                else msgChunk)
         in if msgChunk = [] then (Raise IndexError, evs)
            else if last msgChunk = em then (Return (msgChunks @ [butlast msgChunk]), evs)
            else read_chunks em (msgChunks @ [msgChunk]) evs))"

definition readToEndMarker :: "string prog" where
  "readToEndMarker = (\<lambda>(c, w).
     case sock c of
       None \<Rightarrow> (Raise AttributeError, (c, w))
     | Some Connected \<Rightarrow>
         (case read_chunks (endMark c) [] (recvs w) of
            (Return msgChunks, evs) \<Rightarrow> (Return (concat msgChunks), (c, w\<lparr>recvs := evs\<rparr>))
          | (Raise e, evs) \<Rightarrow> (Raise e, (c, w\<lparr>recvs := evs\<rparr>))
          | (Hang, evs) \<Rightarrow> (Hang, (c, w\<lparr>recvs := evs\<rparr>)))
     | Some _ \<Rightarrow> (Raise SocketError, (c, w)))"

text \<open>
  \<^verbatim>\<open>RPCConnection.connect\<close>: the old socket, if any, is closed and dropped, a new
  one is created and stored, and then connected.
\<close>

definition RPCConnection_connect :: "unit prog" where
  "RPCConnection_connect = (\<lambda>(c, w).
     let c = c\<lparr>sock := Some Unconnected\<rparr>
     in case connects w of
          [] \<Rightarrow> (Hang, (c, w))
        | ok # rest \<Rightarrow>
            if ok
            then (Return (), (c\<lparr>sock := Some Connected\<rparr>,
                              w\<lparr>connects := rest, opened := opened w + 1\<rparr>))
            else (Raise SocketError, (c, w\<lparr>connects := rest\<rparr>)))"


subsection \<open>The request grammar of the VistA transport\<close>

text \<open>A parameter is a text or a dictionary; a dictionary keeps its items in order.\<close>

datatype param = Scalar string | Keyed "(string \<times> string) list"

text \<open>\<^verbatim>\<open>str(n)\<close> for a length \<open>n\<close>, and \<^verbatim>\<open>s.zfill(width)\<close> for digits.\<close>

fun str_nat :: "nat \<Rightarrow> string" where
  "str_nat n =
     (if n < 10 then [char_of (48 + n)]
      else str_nat (n div 10) @ [char_of (48 + n mod 10)])"

declare str_nat.simps [simp del]

definition zfill :: "nat \<Rightarrow> string \<Rightarrow> string" where
  "zfill width s = replicate (width - length s) CHR ''0'' @ s"

text \<open>The items of a dictionary parameter, \<open>paramIndex\<close> counting from 1.\<close>

fun keyed_items :: "nat \<Rightarrow> (string \<times> string) list \<Rightarrow> string" where
  "keyed_items paramIndex [] = []"
| "keyed_items paramIndex ((key, val) # items) =
     (if paramIndex > 1 then ''t'' else []) @
     zfill 3 (str_nat (length key)) @ key @
     zfill 3 (str_nat (length val)) @ val @
     keyed_items (paramIndex + 1) items"

fun paramspec :: "param \<Rightarrow> string" where
  "paramspec (Scalar param) = ''0'' @ zfill 3 (str_nat (length param)) @ param @ ''f''"
| "paramspec (Keyed param) = ''2'' @ keyed_items 1 param @ ''f''"

definition makeRequest :: "string \<Rightarrow> param list \<Rightarrow> bool \<Rightarrow> string" where
  "makeRequest name params isCommand =
     (let protocoltoken = ''[XWB]1130'';
          commandtoken = (if isCommand then ''4'' else ''2'' @ [CHR 0x01] @ ''1'');
          namespec = [char_of (length name)] @ name;
          paramsspecs = ''5'' @
            (if length params = 0 then ''4'' @ ''f'' else concat (map paramspec params));
          endtoken = [CHR 0x04]
      in protocoltoken @ commandtoken @ namespec @ paramsspecs @ endtoken)"



subsection \<open>The handshake of the VistA transport\<close>

text \<open>
  \<^verbatim>\<open>re.match(r'accept', s)\<close> asks whether \<open>s\<close> starts with the text, which is
  \<^const>\<open>prefix\<close>; \<^verbatim>\<open>re.search\<close> with a pattern of plain characters asks whether
  the text occurs in \<open>s\<close>.
\<close>

fun re_search :: "string \<Rightarrow> string \<Rightarrow> bool" where
  "re_search pat [] = (pat = [])"
| "re_search pat (c # s) = (prefix pat (c # s) \<or> re_search pat s)"

definition gethostbyname_gethostname :: "string prog" where
  "gethostbyname_gethostname = (\<lambda>(c, w).
     case localip w of
       None \<Rightarrow> (Raise SocketError, (c, w))
     | Some ip \<Rightarrow> (Return ip, (c, w)))"

definition self_encrypt :: "(connection \<Rightarrow> string) \<Rightarrow> string prog" where
  "self_encrypt val = (\<lambda>(c, w).
     case encrypt (rands w) (val c) of (r, rs) \<Rightarrow> (r, (c, w\<lparr>rands := rs\<rparr>)))"

text \<open>\<^verbatim>\<open>self.sock.send(request.encode('utf-8')); reply = self.readToEndMarker()\<close>\<close>

definition exchange :: "string \<Rightarrow> string prog" where
  "exchange request = bind (sock_send request) (\<lambda>_. readToEndMarker)"

text \<open>The four steps of \<^verbatim>\<open>VistARPCConnection.connect\<close>, each up to its reply.\<close>

definition step_TCPConnect :: "string prog" where
  "step_TCPConnect =
     bind RPCConnection_connect (\<lambda>_.
     bind gethostbyname_gethostname (\<lambda>ip.
     exchange (makeRequest ''TCPConnect'' [Scalar ip, Scalar ''0'', Scalar ''FMQL''] True)))"

definition step_SIGNON_SETUP :: "string prog" where
  "step_SIGNON_SETUP = exchange (makeRequest ''XUS SIGNON SETUP'' [] False)"

definition step_AV_CODE :: "string prog" where
  "step_AV_CODE =
     bind (self_encrypt (\<lambda>c. access c @ '';'' @ verify c)) (\<lambda>accessVerify.
     exchange (makeRequest ''XUS AV CODE'' [Scalar accessVerify] False))"

definition step_CREATE_CONTEXT :: "string prog" where
  "step_CREATE_CONTEXT =
     bind (self_encrypt appcontext) (\<lambda>eMSGCONTEXT.
     exchange (makeRequest ''XWB CREATE CONTEXT'' [Scalar eMSGCONTEXT] False))"

definition VistA_connect :: "unit prog" where
  "VistA_connect =
     bind step_TCPConnect (\<lambda>connectReply.
     if \<not> prefix ''accept'' connectReply
     then raise (Exception ''VistARPCConnection'' connectReply)
     else
       bind step_SIGNON_SETUP (\<lambda>connectReply.
       bind step_AV_CODE (\<lambda>connectReply.
       if re_search ''Not a valid ACCESS CODE/VERIFY CODE pair'' connectReply
       then raise (Exception ''VistARPCConnection'' connectReply)
       else
         bind step_CREATE_CONTEXT (\<lambda>connectReply.
         if re_search ''Application context has not been created'' connectReply \<or>
            re_search ''does not exist on server'' connectReply
         then raise (Exception ''VistARPCConnection'' connectReply)
         else ret ()))))"

subsection \<open>Invoking an RPC\<close>

text \<open>
  \<^verbatim>\<open>RPCConnection.invokeRPC\<close> calls the methods \<^verbatim>\<open>connect\<close> and
  \<^verbatim>\<open>makeRequest\<close> of the object's class, which are parameters here. \<open>attempt\<close> is
  the sequence that the source has twice: build the request, send it, read the reply.
\<close>

definition attempt :: "(string \<Rightarrow> param list \<Rightarrow> string prog) \<Rightarrow> string \<Rightarrow> param list \<Rightarrow> string prog" where
  "attempt mkRequest name params =
     bind (mkRequest name params) (\<lambda>request.
     bind (sock_send request) (\<lambda>_. readToEndMarker))"

definition invokeRPC ::
  "unit prog \<Rightarrow> (string \<Rightarrow> param list \<Rightarrow> string prog) \<Rightarrow> string \<Rightarrow> param list \<Rightarrow> string prog" where
  "invokeRPC connect mkRequest name params =
     bind (\<lambda>(c, w). if sock c = None then connect (c, w) else (Return (), (c, w))) (\<lambda>_.
     bind (except_socket_error (attempt mkRequest name params)) (\<lambda>msg.
     if length msg = 0
     then bind connect (\<lambda>_. attempt mkRequest name params)
     else ret msg))"

definition VistA_makeRequest :: "string \<Rightarrow> param list \<Rightarrow> string prog" where
  "VistA_makeRequest name params = ret (makeRequest name params False)"

definition VistA_invokeRPC :: "string \<Rightarrow> param list \<Rightarrow> string prog" where
  "VistA_invokeRPC = invokeRPC VistA_connect VistA_makeRequest"

subsection \<open>The length header of the CIA transport\<close>

text \<open>
  The argument of \<^verbatim>\<open>__byteIt\<close> is a text or a bytes-like value (the obfuscated
  credentials are bytes); a byte is a number below 256. \<^verbatim>\<open>bytearray.append\<close> raises
  \<^verbatim>\<open>ValueError\<close> for a number that is not a byte, and \<^verbatim>\<open>bytearray(strVal)\<close>
  raises \<^verbatim>\<open>TypeError\<close> for a text, since no encoding is given. On the
  lengths, which are not negative, \<^verbatim>\<open>slen >> k\<close> is \<open>slen div 2 ^ k\<close>,
  \<^verbatim>\<open>slen & 0xFF\<close> is \<open>slen mod 256\<close> and \<^verbatim>\<open>highCount << 4\<close> is
  \<open>highCount * 2 ^ 4\<close>.
\<close>

datatype field = Str string | Bytes "nat list"

fun len :: "field \<Rightarrow> nat" where
  "len (Str s) = length s"
| "len (Bytes bs) = length bs"

function byteIt_loop :: "nat \<Rightarrow> nat list \<Rightarrow> nat \<Rightarrow> nat list \<times> nat" where
  "byteIt_loop slen bytes highCount =
     (if slen \<noteq> 0
      then byteIt_loop (slen div 2 ^ 8) (bytes @ [slen mod 256]) (highCount + 1)
      else (bytes, highCount))"
  by pat_completeness auto
termination
  by (relation "measure (\<lambda>(slen, bytes, highCount). slen)") auto

declare byteIt_loop.simps [simp del]

definition byteIt :: "field \<Rightarrow> nat list result" where
  "byteIt strVal =
     (let slen = len strVal;
          low = slen mod 16;
          slen = slen div 2 ^ 4;
          (bytes, highCount) = byteIt_loop slen [] 0;
          first = highCount * 2 ^ 4 + low
      in if 256 \<le> first then Raise ValueError
         else
           (let fbytes = [first] @ rev bytes
            in case strVal of
                 Str s \<Rightarrow> Raise TypeError
               | Bytes bs \<Rightarrow> Return (fbytes @ bs)))"

subsection \<open>The connection pool\<close>

text \<open>The \<^verbatim>\<open>LifoQueue\<close> is a list whose head is the transport put last.\<close>

record pool =
  connectionQueue :: "connection list"
  poolSize :: int

definition VistARPCConnection ::
  "string \<Rightarrow> int \<Rightarrow> string \<Rightarrow> string \<Rightarrow> string \<Rightarrow> int \<Rightarrow> connection" where
  "VistARPCConnection h p a v ctx i =
     \<lparr>kind = VistA, host = h, port = p, access = a, verify = v, appcontext = ctx,
      endMark = CHR 0x04, poolId = i, sock = None, sequence = 0, uid = []\<rparr>"

definition CIARPCConnection ::
  "string \<Rightarrow> int \<Rightarrow> string \<Rightarrow> string \<Rightarrow> string \<Rightarrow> int \<Rightarrow> connection" where
  "CIARPCConnection h p a v ctx i =
     \<lparr>kind = CIA, host = h, port = p, access = a, verify = v, appcontext = ctx,
      endMark = CHR 0xFF, poolId = i, sock = None, sequence = 0, uid = []\<rparr>"

text \<open>
  \<^verbatim>\<open>__prebuildConnections\<close>, with \<open>psize\<close> for the argument
  \<^verbatim>\<open>poolSize\<close>: \<^verbatim>\<open>range(poolSize, 0, -1)\<close> runs from \<open>psize\<close> down to 1
  and is empty for \<open>psize \<le> 0\<close>.
\<close>

definition prebuildConnections ::
  "string \<Rightarrow> int \<Rightarrow> string \<Rightarrow> int \<Rightarrow> string \<Rightarrow> string \<Rightarrow> string \<Rightarrow> pool \<Rightarrow> pool" where
  "prebuildConnections brokerType psize h p a v ctx self =
     (let q = foldl
                (\<lambda>q i.
                   (if brokerType = ''CIA'' then CIARPCConnection h p a v ctx i
                    else VistARPCConnection h p a v ctx i) # q)
                (connectionQueue self) (rev [1..psize])
      in self\<lparr>connectionQueue := q, poolSize := psize\<rparr>)"

definition RPCConnectionPool ::
  "string \<Rightarrow> int \<Rightarrow> string \<Rightarrow> int \<Rightarrow> string \<Rightarrow> string \<Rightarrow> string \<Rightarrow> pool" where
  "RPCConnectionPool brokerType psize h p a v ctx =
     prebuildConnections brokerType psize h p a v ctx \<lparr>connectionQueue = [], poolSize = 0\<rparr>"

text \<open>
  \<^verbatim>\<open>RPCConnectionPool.invokeRPC\<close>. \<^verbatim>\<open>get()\<close> blocks on an empty queue. The
  first argument is the method \<^verbatim>\<open>invokeRPC\<close> of the borrowed transport, which for a
  VistA transport is \<^const>\<open>VistA_invokeRPC\<close>.
\<close>

definition pool_invokeRPC ::
  "(string \<Rightarrow> param list \<Rightarrow> string prog) \<Rightarrow> string \<Rightarrow> param list \<Rightarrow>
     pool \<times> world \<Rightarrow> string result \<times> pool \<times> world" where
  "pool_invokeRPC transport_invokeRPC name params = (\<lambda>(self, w).
     case connectionQueue self of
       [] \<Rightarrow> (Hang, (self, w))
     | connection # rest \<Rightarrow>
         (let self = self\<lparr>connectionQueue := rest\<rparr>
          in case transport_invokeRPC name params (connection, w) of
               (Return reply, (connection, w)) \<Rightarrow>
                 (Return reply, (self\<lparr>connectionQueue := connection # rest\<rparr>, w))
             | (Raise e, (connection, w)) \<Rightarrow> (Raise e, (self, w))
             | (Hang, (connection, w)) \<Rightarrow> (Hang, (self, w))))"

subsection \<open>Decoders\<close>

text \<open>
  The client never reads a request or a length header back: the broker does. The two
  decoders below are written from the grammar of the wire format, to state that what the
  encoders of the client emit can be read back.

  A length header: the first byte holds the number of extra length bytes in its high
  nibble and the length modulo 16 in its low nibble; the extra bytes follow, most
  significant first. \<open>decode_length\<close> gives the length and what follows the header.
\<close>

definition be_value :: "nat list \<Rightarrow> nat" where
  "be_value bs = foldl (\<lambda>acc b. 256 * acc + b) 0 bs"

definition decode_length :: "nat list \<Rightarrow> (nat \<times> nat list) option" where
  "decode_length bs =
     (case bs of
        [] \<Rightarrow> None
      | first # rest \<Rightarrow>
          (let n = first div 16; low = first mod 16
           in if length rest < n then None
              else Some (16 * be_value (take n rest) + low, drop n rest)))"












text \<open>The texts and the parameters made of characters below 128.\<close>

definition ascii :: "string \<Rightarrow> bool" where
  "ascii s = list_all (\<lambda>c. (of_char c :: nat) < 128) s"


subsection \<open>A transport and an environment to run the model on\<close>

text \<open>
  The transport of the end-to-end scenario, not yet connected, and an environment in which
  nothing has happened and nothing is scripted.
\<close>

definition scenario_connection :: connection where
  "scenario_connection =
     VistARPCConnection ''127.0.0.1'' 9997 ''DOCTOR1'' ''DOCTOR1.'' ''OR CPRS GUI CHART'' 1"

definition idle_world :: world where
  "idle_world =
     \<lparr>localip = Some ''127.0.0.1'', connects = [], sends = [], recvs = [], rands = [],
      wire = [], opened = 0\<rparr>"

text \<open>
  The replies of a broker that accepts the four steps of the handshake, and the replies of
  a broker that rejects the credentials at the third step.
\<close>

definition handshake_accepted :: "recv_event list" where
  "handshake_accepted =
     [Data (''accept'' @ [CHR 0x04]), Data (''SIGNON'' @ [CHR 0x04]),
      Data (''1'' @ [CHR 0x04]), Data (''1'' @ [CHR 0x04])]"

definition handshake_rejected :: "recv_event list" where
  "handshake_rejected =
     [Data (''accept'' @ [CHR 0x04]), Data (''SIGNON'' @ [CHR 0x04]),
      Data (''Not a valid ACCESS CODE/VERIFY CODE pair.'' @ [CHR 0x04])]"

text \<open>
  Three environments for a transport. In \<open>stale_world\<close> the first read finds that the
  peer has closed the connection, the handshake of the reconnection is accepted and the
  next read gets \<open>ev\<close>. In \<open>rejecting_world\<close> the broker rejects the credentials and
  then answers one request. In \<open>refusing_world\<close> the handshake gets the replies
  \<open>evs\<close>.
\<close>

definition stale_world :: "recv_event \<Rightarrow> world" where
  "stale_world ev =
     idle_world\<lparr>connects := [True], sends := replicate 6 True,
       recvs := Data [] # handshake_accepted @ [ev], rands := [1, 2, 3, 4]\<rparr>"

definition rejecting_world :: world where
  "rejecting_world =
     idle_world\<lparr>connects := [True], sends := replicate 4 True,
       recvs := handshake_rejected @ [Data (''12345^SMITH,J'' @ [CHR 0x04])],
       rands := [1, 2]\<rparr>"

definition refusing_world :: "recv_event list \<Rightarrow> world" where
  "refusing_world evs =
     idle_world\<lparr>connects := [True], sends := replicate 4 True, recvs := evs,
       rands := [1, 2, 3, 4]\<rparr>"

section \<open>Properties\<close>

subsection \<open>Characters and searching\<close>

lemma char_of_nat_eq: "char_of (n::nat) = c \<longleftrightarrow> n mod 256 = of_char c"
  by (simp add: char_of_eq_iff take_bit_eq_mod)


lemma find_str_absent: "find_str xs c = -1 \<longleftrightarrow> c \<notin> set xs"
proof (induction xs)
  case Nil
  show ?case by simp
next
  case (Cons x xs)
  have "find_str xs c \<noteq> -1 \<Longrightarrow> 0 \<le> find_str xs c"
    by (induction xs) (auto simp: Let_def split: if_splits)
  with Cons show ?case by (auto simp: Let_def)
qed

lemma find_str_nonneg: "c \<in> set xs \<Longrightarrow> 0 \<le> find_str xs c"
  by (induction xs) (auto simp: Let_def find_str_absent)

lemma find_str_present:
  "c \<in> set xs \<Longrightarrow> nat (find_str xs c) < length xs \<and> xs ! nat (find_str xs c) = c"
proof (induction xs)
  case Nil
  then show ?case by simp
next
  case (Cons x xs)
  show ?case
  proof (cases "x = c")
    case True
    then show ?thesis by simp
  next
    case False
    with Cons.prems have mem: "c \<in> set xs" by simp
    then have nn: "0 \<le> find_str xs c" by (rule find_str_nonneg)
    from mem have "find_str xs c \<noteq> -1" by (simp add: find_str_absent)
    with False nn Cons.IH [OF mem] show ?thesis
      by (simp add: Let_def nat_add_distrib)
  qed
qed

lemma find_str_nth:
  "distinct xs \<Longrightarrow> i < length xs \<Longrightarrow> find_str xs (xs ! i) = int i"
proof (induction xs arbitrary: i)
  case Nil
  then show ?case by simp
next
  case (Cons x xs)
  show ?case
  proof (cases i)
    case 0
    then show ?thesis by simp
  next
    case (Suc j)
    with Cons.prems have j: "j < length xs" and d: "distinct xs" and x: "x \<notin> set xs"
      by simp_all
    from j x have "x \<noteq> xs ! j" by (metis nth_mem)
    with Suc Cons.IH [OF d j] show ?thesis by (simp add: Let_def)
  qed
qed

subsection \<open>The cipher table\<close>

lemma CIPHER_length: "length CIPHER = 20"
  by (simp add: CIPHER_def)

lemma CIPHER_rows_distinct: "list_all distinct CIPHER"
  by code_simp

lemma CIPHER_rows_length: "list_all (\<lambda>r. length r = 94) CIPHER"
  by code_simp

lemma CIPHER_row:
  assumes "k \<le> 18"
  shows "distinct (CIPHER ! k)" and "length (CIPHER ! k) = 94"
proof -
  from assms have "k < length CIPHER" by (simp add: CIPHER_length)
  then show "distinct (CIPHER ! k)" and "length (CIPHER ! k) = 94"
    using CIPHER_rows_distinct CIPHER_rows_length by (simp_all add: list_all_length)
qed

subsection \<open>The row indices\<close>

lemma redraw_range:
  "redraw ra rb rs = Some (b, rs') \<Longrightarrow> rb \<le> 18 \<Longrightarrow> b \<le> 18 \<and> b \<noteq> 0 \<and> b \<noteq> ra"
proof (induction rs arbitrary: rb)
  case Nil
  then show ?case by (auto split: if_splits)
next
  case (Cons r rs)
  have "r mod 19 \<le> 18" by simp
  with Cons show ?case by (auto split: if_splits)
qed

lemma redraw_accept: "rb \<noteq> ra \<Longrightarrow> rb \<noteq> 0 \<Longrightarrow> redraw ra rb rs = Some (rb, rs)"
  by (cases rs) simp_all

lemma redraw_returns:
  "r \<in> set rs \<Longrightarrow> r mod 19 \<noteq> 0 \<Longrightarrow> r mod 19 \<noteq> ra \<Longrightarrow> redraw ra rb rs \<noteq> None"
  by (induction rs arbitrary: rb) (auto simp: redraw_accept)

lemma pick_rows_range:
  assumes "pick_rows rs = Some (a, b, rs')"
  shows "a \<le> 18" and "1 \<le> b" and "b \<le> 18" and "a \<noteq> b"
proof -
  from assms obtain r0 r1 rest where rs: "rs = r0 # r1 # rest"
    by (cases rs; cases "tl rs") (auto simp: pick_rows_def)
  with assms have a: "a = r0 mod 19" and rd: "redraw a (r1 mod 19) rest = Some (b, rs')"
    by (auto simp: pick_rows_def split: option.splits)
  have "r1 mod 19 \<le> 18" by simp
  from redraw_range [OF rd this] a
  show "a \<le> 18" and "1 \<le> b" and "b \<le> 18" and "a \<noteq> b" by auto
qed

lemma pick_rows_direct:
  "a \<le> 18 \<Longrightarrow> 1 \<le> b \<Longrightarrow> b \<le> 18 \<Longrightarrow> a \<noteq> b \<Longrightarrow> pick_rows (a # b # rs) = Some (a, b, rs)"
  by (cases rs) (auto simp: pick_rows_def)

lemma pick_rows_returns:
  "r \<in> set rs \<Longrightarrow> r mod 19 \<noteq> 0 \<Longrightarrow> r mod 19 \<noteq> r0 mod 19 \<Longrightarrow> pick_rows (r0 # r1 # rs) \<noteq> None"
  using redraw_returns [of r rs "r0 mod 19" "r1 mod 19"]
  by (auto simp: pick_rows_def split: option.splits)

subsection \<open>The substitution\<close>

lemma encrypt_char_total:
  assumes "length cra \<le> length crb"
  shows "encrypt_char cra crb c =
    Return (if c \<in> set cra then crb ! nat (find_str cra c) else c)"
proof (cases "c \<in> set cra")
  case True
  with find_str_present [OF True] assms show ?thesis
    by (simp add: encrypt_char_def find_str_absent)
next
  case False
  then show ?thesis by (simp add: encrypt_char_def find_str_absent)
qed

lemma encrypt_loop_total:
  assumes "length cra \<le> length crb"
  shows "encrypt_loop cra crb val cval =
    Return (cval @ map (\<lambda>c. if c \<in> set cra then crb ! nat (find_str cra c) else c) val)"
  by (induction val arbitrary: cval) (simp_all add: encrypt_char_total [OF assms])

lemma encrypt_picked:
  assumes "pick_rows rs = Some (a, b, rs')"
  shows "encrypt rs val =
    (Return (char_of (a + 32) #
       map (\<lambda>c. if c \<in> set (CIPHER ! a)
                 then CIPHER ! b ! nat (find_str (CIPHER ! a) c) else c) val @
       [char_of (b + 32)]), rs')"
proof -
  from pick_rows_range [OF assms] have "length (CIPHER ! a) \<le> length (CIPHER ! b)"
    by (simp add: CIPHER_row)
  from encrypt_loop_total [OF this] assms show ?thesis
    by (simp add: encrypt_def)
qed

subsection \<open>Claims on the cipher\<close>

text \<open>
  C5. Cipher round trip. Let \<open>a\<close> and \<open>b\<close> be row indices that \<open>encrypt\<close>
  selects (whatever the oracle), and let the plaintext character at position \<open>k\<close> occur
  in row \<open>a\<close>, at position \<open>i\<close>. Then the output character for it (position
  \<open>k + 1\<close> of the output, after the selector character) is the character of row
  \<open>b\<close> at position \<open>i\<close>, and looking that output character up in row \<open>b\<close> and
  reading row \<open>a\<close> at the position found gives the plaintext character back. The
  theorem holds for every selected pair, so also for the pairs of distinct non-zero indices.
\<close>

theorem cipher_round_trip:
  assumes "pick_rows rs = Some (a, b, rs')"
    and "k < length val"
    and "val ! k \<in> set (CIPHER ! a)"
  shows "\<exists>out. encrypt rs val = (Return out, rs') \<and>
    out ! (k + 1) = CIPHER ! b ! nat (find_str (CIPHER ! a) (val ! k)) \<and>
    CIPHER ! a ! nat (find_str (CIPHER ! b) (out ! (k + 1))) = val ! k"
proof -
  let ?ra = "CIPHER ! a" and ?rb = "CIPHER ! b"
  let ?i = "nat (find_str ?ra (val ! k))"
  let ?f = "\<lambda>c. if c \<in> set ?ra then ?rb ! nat (find_str ?ra c) else c"
  let ?out = "char_of (a + 32) # map ?f val @ [char_of (b + 32)]"
  from pick_rows_range [OF assms(1)] have a: "a \<le> 18" and b: "b \<le> 18" by simp_all
  have enc: "encrypt rs val = (Return ?out, rs')"
    by (rule encrypt_picked [OF assms(1)])
  from assms(2) have "?out ! (k + 1) = ?f (val ! k)"
    by (simp add: nth_append)
  with assms(3) have out: "?out ! (k + 1) = ?rb ! ?i" by simp
  from find_str_present [OF assms(3)] have i: "?i < length ?ra" and ai: "?ra ! ?i = val ! k"
    by simp_all
  from i a b have "?i < length ?rb" by (simp add: CIPHER_row)
  with b have f: "find_str ?rb (?rb ! ?i) = int ?i"
    by (simp add: find_str_nth CIPHER_row)
  have "nat (find_str ?rb (?out ! (k + 1))) = ?i"
    by (simp only: out f nat_int)
  then have "?ra ! nat (find_str ?rb (?out ! (k + 1))) = val ! k"
    by (simp only: ai)
  with enc out show ?thesis by blast
qed

theorem cipher_round_trip_witness:
  "\<exists>out. encrypt [3, 7] ''DOCTOR1'' = (Return out, []) \<and>
    out ! (0 + 1) = CIPHER ! 7 ! nat (find_str (CIPHER ! 3) (''DOCTOR1'' ! 0)) \<and>
    CIPHER ! 3 ! nat (find_str (CIPHER ! 7) (out ! (0 + 1))) = ''DOCTOR1'' ! 0"
proof -
  have p: "pick_rows [3, 7] = Some (3, 7, [])"
    by (simp add: pick_rows_def)
  have k: "0 < length ''DOCTOR1''" by simp
  have m: "''DOCTOR1'' ! 0 \<in> set (CIPHER ! 3)"
    by (simp add: CIPHER_def)
  from cipher_round_trip [OF p k m] show ?thesis .
qed

text \<open>
  C6 (as amended). Output structure. Whenever \<open>encrypt\<close> selects its rows, the first
  index \<open>a\<close> is between 0 and 18 (it may be 0), the second index \<open>b\<close> is between 1
  and 18 and differs from \<open>a\<close>, and the text built is \<open>chr(a+32)\<close>, then one character
  per input character (the character of row \<open>b\<close> at the position where the input
  character stands in row \<open>a\<close>, or the input character itself when row \<open>a\<close> does not
  have it), then \<open>chr(b+32)\<close>; its length is the length of the input plus two.
\<close>

theorem encrypt_output_structure:
  assumes "pick_rows rs = Some (a, b, rs')"
  shows "a \<le> 18 \<and> 1 \<le> b \<and> b \<le> 18 \<and> a \<noteq> b \<and>
    (\<exists>out. encrypt rs val = (Return out, rs') \<and>
       out = char_of (a + 32) #
         map (\<lambda>c. if c \<in> set (CIPHER ! a)
                   then CIPHER ! b ! nat (find_str (CIPHER ! a) c) else c) val @
         [char_of (b + 32)] \<and>
       length out = length val + 2)"
  using pick_rows_range [OF assms] encrypt_picked [OF assms, of val] by simp

theorem encrypt_output_structure_witness:
  "(0::nat) \<le> 18 \<and> (1::nat) \<le> 5 \<and> (5::nat) \<le> 18 \<and> (0::nat) \<noteq> 5 \<and>
    (\<exists>out. encrypt [19, 0, 38, 5, 2] ''a^'' = (Return out, [2]) \<and>
       out = char_of (0 + 32 :: nat) #
         map (\<lambda>c. if c \<in> set (CIPHER ! 0)
                   then CIPHER ! 5 ! nat (find_str (CIPHER ! 0) c) else c) ''a^'' @
         [char_of (5 + 32 :: nat)] \<and>
       length out = length ''a^'' + 2)"
proof -
  have p: "pick_rows [19, 0, 38, 5, 2] = Some (0, 5, [2])"
    by (simp add: pick_rows_def)
  from encrypt_output_structure [OF p, of "''a^''"] show ?thesis .
qed

text \<open>
  The claim as written says that both indices are non-zero. The first index is drawn once
  from 0..18 and never drawn again: with the draws 0 and 1 the selected pair is (0, 1) and
  the output starts with \<open>chr(32)\<close>, a space.
\<close>

theorem encrypt_selects_row_zero:
  "pick_rows [0, 1] = Some (0, 1, []) \<and> encrypt [0, 1] ''A'' = (Return '' X!'', [])"
  by (simp add: pick_rows_def encrypt_def encrypt_char_def CIPHER_def char_of_nat_eq)

subsection \<open>The request grammar\<close>















text \<open>The encoding leaves a text of characters below 128 as it is.\<close>

lemma ascii_append [simp]: "ascii (xs @ ys) \<longleftrightarrow> ascii xs \<and> ascii ys"
  by (simp add: ascii_def)

lemma ascii_Cons [simp]: "ascii (c # s) \<longleftrightarrow> (of_char c :: nat) < 128 \<and> ascii s"
  by (simp add: ascii_def)

lemma ascii_Nil [simp]: "ascii []"
  by (simp add: ascii_def)










subsection \<open>The length header\<close>

lemma be_value_snoc: "be_value (xs @ [x]) = 256 * be_value xs + x"
  by (simp add: be_value_def)

lemma byteIt_loop_0: "byteIt_loop 0 bytes hc = (bytes, hc)"
  by (simp add: byteIt_loop.simps [of 0])

lemma byteIt_loop_step:
  "n \<noteq> 0 \<Longrightarrow> byteIt_loop n bytes hc = byteIt_loop (n div 256) (bytes @ [n mod 256]) (hc + 1)"
  by (simp add: byteIt_loop.simps [of n])

lemma byteIt_loop_digits:
  "\<exists>ds. byteIt_loop n bytes hc = (bytes @ ds, hc + length ds) \<and>
        be_value (rev ds) = n \<and> list_all (\<lambda>b. b < 256) ds \<and>
        (\<forall>k. n < 256 ^ k \<longrightarrow> length ds \<le> k)"
proof (induction n bytes hc rule: byteIt_loop.induct)
  case (1 slen bytes highCount)
  show ?case
  proof (cases "slen = 0")
    case True
    then have "byteIt_loop slen bytes highCount = (bytes @ [], highCount + length ([]::nat list))"
      by (simp add: byteIt_loop_0)
    moreover from True have "be_value (rev []) = slen" by (simp add: be_value_def)
    moreover have "list_all (\<lambda>b. b < 256) ([]::nat list)" by simp
    moreover have "\<forall>k. slen < 256 ^ k \<longrightarrow> length ([]::nat list) \<le> k" by simp
    ultimately show ?thesis by blast
  next
    case False
    from "1.IH" [OF False] obtain ds where
      loop: "byteIt_loop (slen div 2 ^ 8) (bytes @ [slen mod 256]) (highCount + 1) =
        ((bytes @ [slen mod 256]) @ ds, highCount + 1 + length ds)"
      and val: "be_value (rev ds) = slen div 2 ^ 8"
      and bytes: "list_all (\<lambda>b. b < 256) ds"
      and bound: "\<forall>k. slen div 2 ^ 8 < 256 ^ k \<longrightarrow> length ds \<le> k"
      by blast
    let ?ds = "slen mod 256 # ds"
    from False loop have "byteIt_loop slen bytes highCount = (bytes @ ?ds, highCount + length ?ds)"
      by (simp add: byteIt_loop.simps [of slen])
    moreover from val have "be_value (rev ?ds) = slen"
      by (simp add: be_value_snoc)
    moreover from bytes have "list_all (\<lambda>b. b < 256) ?ds" by simp
    moreover have "\<forall>k. slen < 256 ^ k \<longrightarrow> length ?ds \<le> k"
    proof (intro allI impI)
      fix k
      assume lt: "slen < 256 ^ k"
      with False obtain j where k: "k = Suc j" by (cases k) auto
      with lt have "slen div 2 ^ 8 < 256 ^ j"
        by (simp add: less_mult_imp_div_less mult.commute)
      with bound have "length ds \<le> j" by blast
      with k show "length ?ds \<le> k" by simp
    qed
    ultimately show ?thesis by blast
  qed
qed

text \<open>
  The header for a bytes-like field of \<open>L\<close> bytes, \<open>L\<close> below \<open>2 ^ 124\<close>
  (every length a Python object can have is below \<open>2 ^ 63\<close>): \<open>byteIt\<close> returns a
  header followed by the field; every number of the header is a byte; the high nibble of
  its first byte is the number of the bytes that follow it in the header and the low
  nibble is \<open>L mod 16\<close>; those bytes, most significant first, are \<open>L div 16\<close>; and
  decoding gives \<open>L\<close> and the field back.
\<close>

lemma byteIt_header_round_trip:
  assumes "length bs < 2 ^ 124"
  shows "\<exists>hdr. byteIt (Bytes bs) = Return (hdr @ bs) \<and>
    hdr \<noteq> [] \<and> list_all (\<lambda>b. b < 256) hdr \<and>
    hd hdr div 16 = length (tl hdr) \<and>
    hd hdr mod 16 = length bs mod 16 \<and>
    be_value (tl hdr) = length bs div 16 \<and>
    decode_length (hdr @ bs) = Some (length bs, bs)"
proof -
  let ?L = "length bs"
  let ?low = "?L mod 16"
  from byteIt_loop_digits [of "?L div 2 ^ 4" "[]" 0] obtain ds where
    loop: "byteIt_loop (?L div 2 ^ 4) [] 0 = (ds, length ds)"
    and val: "be_value (rev ds) = ?L div 2 ^ 4"
    and bytes: "list_all (\<lambda>b. b < 256) ds"
    and bound: "\<forall>k. ?L div 2 ^ 4 < 256 ^ k \<longrightarrow> length ds \<le> k"
    by auto
  have "(2::nat) ^ 124 = 2 ^ 4 * 256 ^ 15" by simp
  with assms have "?L div 2 ^ 4 < 256 ^ 15"
    by (simp only: less_mult_imp_div_less mult.commute)
  with bound have hc: "length ds \<le> 15" by blast
  let ?first = "length ds * 2 ^ 4 + ?low"
  let ?hdr = "?first # rev ds"
  from hc have first: "?first < 256" by simp
  have fdiv: "?first div 16 = length ds" and fmod: "?first mod 16 = ?low"
    by simp_all
  from loop first have "byteIt (Bytes bs) = Return (?hdr @ bs)"
    by (simp add: byteIt_def)
  moreover have "?hdr \<noteq> []" by simp
  moreover from bytes first have "list_all (\<lambda>b. b < 256) ?hdr"
    by (simp add: list_all_iff)
  moreover from fdiv have "hd ?hdr div 16 = length (tl ?hdr)" by simp
  moreover from fmod have "hd ?hdr mod 16 = ?L mod 16" by simp
  moreover from val have "be_value (tl ?hdr) = ?L div 16" by simp
  moreover have "decode_length (?hdr @ bs) = Some (?L, bs)"
    using fdiv fmod val by (simp add: decode_length_def)
  ultimately show ?thesis by blast
qed

lemma byteIt_boundaries:
  "length bs = 0 \<Longrightarrow> byteIt (Bytes bs) = Return ([0] @ bs)"
  "length bs = 15 \<Longrightarrow> byteIt (Bytes bs) = Return ([15] @ bs)"
  "length bs = 16 \<Longrightarrow> byteIt (Bytes bs) = Return ([16, 1] @ bs)"
  "length bs = 4095 \<Longrightarrow> byteIt (Bytes bs) = Return ([31, 255] @ bs)"
  "length bs = 4096 \<Longrightarrow> byteIt (Bytes bs) = Return ([32, 1, 0] @ bs)"
  by (simp_all add: byteIt_def byteIt_loop_0 byteIt_loop_step)

text \<open>
  For a text argument the header is computed in the same way, but the last statement,
  \<^verbatim>\<open>fbytes.extend(bytearray(strVal))\<close>, raises and nothing is returned.
\<close>

lemma byteIt_Str_raises: "byteIt (Str s) \<noteq> Return out"
  by (simp add: byteIt_def Let_def split: prod.splits)

text \<open>
  C8. The claim says that for every field string the header that \<open>byteIt\<close> emits
  decodes back to the length of the field. The fields of a CIA request are texts, and the
  first one that \<^verbatim>\<open>__makeCIARequest\<close> passes is the field name \<open>IP\<close> of the
  connect message. For the text \<open>IP\<close> the header byte 2 is computed and then
  \<open>TypeError\<close> is raised: no header is emitted. For the same two characters as bytes
  the header is emitted and is the byte 2.
\<close>

theorem byteIt_text_field_raises:
  "byteIt (Str ''IP'') = Raise TypeError \<and> byteIt (Bytes [73, 80]) = Return [2, 73, 80]"
  by (simp add: byteIt_def byteIt_loop_0)

subsection \<open>The pool\<close>

lemma foldl_push: "foldl (\<lambda>q i. f i # q) q0 xs = rev (map f xs) @ q0"
  by (induction xs arbitrary: q0) simp_all

lemma prebuilt_queue:
  "connectionQueue (RPCConnectionPool brokerType psize h p a v ctx) =
     map (\<lambda>i. if brokerType = ''CIA'' then CIARPCConnection h p a v ctx i
                else VistARPCConnection h p a v ctx i) [1..psize]"
  by (simp add: RPCConnectionPool_def prebuildConnections_def foldl_push rev_map)

lemma pool_size_any:
  "length (connectionQueue (RPCConnectionPool brokerType psize h p a v ctx)) = nat psize"
  by (simp add: prebuilt_queue)

lemma pool_flavor_CIA:
  "list_all (\<lambda>c. kind c = CIA \<and> endMark c = CHR 0xFF)
     (connectionQueue (RPCConnectionPool ''CIA'' psize h p a v ctx))"
  by (simp add: prebuilt_queue list_all_iff CIARPCConnection_def)

text \<open>
  C10. The flavor defaults to VistA. For a pool size that is not negative and a broker
  type that is not the text \<open>CIA\<close>, the constructor of the pool builds exactly
  \<open>psize\<close> transports, every one of them a VistA transport (with the end marker of that
  flavor and no socket), numbered 1 to \<open>psize\<close> from the top of the store. The
  constructor is a total function: no broker type makes it fail.
\<close>

theorem pool_flavor_default:
  assumes "brokerType \<noteq> ''CIA''" and "0 \<le> psize"
  shows "int (length (connectionQueue (RPCConnectionPool brokerType psize h p a v ctx))) = psize \<and>
    list_all (\<lambda>c. kind c = VistA \<and> endMark c = CHR 0x04 \<and> sock c = None)
      (connectionQueue (RPCConnectionPool brokerType psize h p a v ctx)) \<and>
    map poolId (connectionQueue (RPCConnectionPool brokerType psize h p a v ctx)) = [1..psize] \<and>
    poolSize (RPCConnectionPool brokerType psize h p a v ctx) = psize"
proof -
  let ?q = "connectionQueue (RPCConnectionPool brokerType psize h p a v ctx)"
  from assms(1) have q: "?q = map (VistARPCConnection h p a v ctx) [1..psize]"
    by (simp add: prebuilt_queue)
  from assms(2) have "int (length ?q) = psize"
    by (simp add: q)
  moreover have "list_all (\<lambda>c. kind c = VistA \<and> endMark c = CHR 0x04 \<and> sock c = None) ?q"
    by (simp add: q list_all_iff VistARPCConnection_def)
  moreover have "map poolId ?q = [1..psize]"
    by (simp add: q VistARPCConnection_def comp_def)
  moreover have "poolSize (RPCConnectionPool brokerType psize h p a v ctx) = psize"
    by (simp add: RPCConnectionPool_def prebuildConnections_def)
  ultimately show ?thesis by blast
qed

theorem pool_flavor_default_witness:
  "''VISTA'' \<noteq> ''CIA'' \<and> (0::int) \<le> 3 \<and>
   int (length (connectionQueue
     (RPCConnectionPool ''VISTA'' 3 ''host'' 9297 ''ACCESS'' ''VERIFY'' ''XUPROGMODE''))) = 3 \<and>
   list_all (\<lambda>c. kind c = VistA \<and> endMark c = CHR 0x04 \<and> sock c = None)
     (connectionQueue
       (RPCConnectionPool ''VISTA'' 3 ''host'' 9297 ''ACCESS'' ''VERIFY'' ''XUPROGMODE'')) \<and>
   map poolId (connectionQueue
     (RPCConnectionPool ''VISTA'' 3 ''host'' 9297 ''ACCESS'' ''VERIFY'' ''XUPROGMODE'')) = [1..3] \<and>
   poolSize (RPCConnectionPool ''VISTA'' 3 ''host'' 9297 ''ACCESS'' ''VERIFY'' ''XUPROGMODE'') = 3"
proof -
  have a: "''VISTA'' \<noteq> ''CIA''" by simp
  have b: "(0::int) \<le> 3" by simp
  from pool_flavor_default [OF a b] a b show ?thesis by blast
qed

text \<open>
  What \<open>pool_invokeRPC\<close> does with the borrowed transport: it is put back when the
  call returns, and it is not put back when the call raises.
\<close>

lemma pool_invokeRPC_outcomes:
  assumes "connectionQueue self = connection # rest"
  shows "(transport_invokeRPC name params (connection, w) = (Return reply, (connection', w')) \<longrightarrow>
           pool_invokeRPC transport_invokeRPC name params (self, w) =
             (Return reply, (self\<lparr>connectionQueue := connection' # rest\<rparr>, w'))) \<and>
         (transport_invokeRPC name params (connection, w) = (Raise e, (connection', w')) \<longrightarrow>
           pool_invokeRPC transport_invokeRPC name params (self, w) =
             (Raise e, (self\<lparr>connectionQueue := rest\<rparr>, w')))"
  using assms by (simp add: pool_invokeRPC_def)

lemma invokeRPC_connection_refused:
  "VistA_invokeRPC name params (scenario_connection, idle_world\<lparr>connects := [False]\<rparr>) =
    (Raise SocketError, (scenario_connection\<lparr>sock := Some Unconnected\<rparr>, idle_world))"
  by (simp add: VistA_invokeRPC_def invokeRPC_def bind_def VistA_connect_def step_TCPConnect_def
      RPCConnection_connect_def scenario_connection_def VistARPCConnection_def idle_world_def)

text \<open>
  C2. The claim says that the borrowed transport is back in the store after every call of
  the pool, also when the call raises. In the source the statement that puts it back
  follows the \<^verbatim>\<open>try\<close> block, and the \<^verbatim>\<open>except\<close> branch re-raises before it. A
  pool of two VistA transports whose first TCP connection is refused: the call raises the
  socket error and the store holds one transport afterwards, the one that was not
  borrowed.
\<close>

theorem pool_invokeRPC_loses_transport:
  "connectionQueue
     (RPCConnectionPool ''VistA'' 2 ''127.0.0.1'' 9997 ''DOCTOR1'' ''DOCTOR1.'' ''OR CPRS GUI CHART'') =
     [scenario_connection, scenario_connection\<lparr>poolId := 2\<rparr>] \<and>
   pool_invokeRPC VistA_invokeRPC ''ORWPT ID INFO'' [Scalar ''2'']
     (RPCConnectionPool ''VistA'' 2 ''127.0.0.1'' 9997 ''DOCTOR1'' ''DOCTOR1.'' ''OR CPRS GUI CHART'',
      idle_world\<lparr>connects := [False]\<rparr>) =
   (Raise SocketError,
    (\<lparr>connectionQueue = [scenario_connection\<lparr>poolId := 2\<rparr>], poolSize = 2\<rparr>, idle_world))"
proof -
  let ?p = "RPCConnectionPool ''VistA'' 2 ''127.0.0.1'' 9997 ''DOCTOR1'' ''DOCTOR1.'' ''OR CPRS GUI CHART''"
  have q: "connectionQueue ?p = [scenario_connection, scenario_connection\<lparr>poolId := 2\<rparr>]"
    by (simp add: prebuilt_queue scenario_connection_def VistARPCConnection_def upto.simps)
  have p: "?p = \<lparr>connectionQueue = [scenario_connection, scenario_connection\<lparr>poolId := 2\<rparr>], poolSize = 2\<rparr>"
    using q by (simp add: RPCConnectionPool_def prebuildConnections_def)
  show ?thesis
    using q by (simp add: pool_invokeRPC_def invokeRPC_connection_refused p)
qed

subsection \<open>Closing a transport\<close>




subsection \<open>Sequencing\<close>

lemma bind_Return: "m s = (Return v, s1) \<Longrightarrow> bind m f s = f v s1"
  by (simp add: bind_def)

lemma bind_Raise: "m s = (Raise e, s1) \<Longrightarrow> bind m f s = (Raise e, s1)"
  by (simp add: bind_def)

lemma bind_cases:
  assumes "bind m f s = (r, s2)"
  obtains (Return) v s1 where "m s = (Return v, s1)" and "f v s1 = (r, s2)"
  | (Raise) e where "m s = (Raise e, s2)" and "r = Raise e"
  | (Hang) "m s = (Hang, s2)" and "r = Hang"
proof -
  obtain r1 s1 where ms: "m s = (r1, s1)" by (metis surj_pair)
  with assms show ?thesis
    by (cases r1) (auto simp: bind_def intro: that)
qed

subsection \<open>Reading a reply\<close>

lemma read_chunks_more:
  assumes "acc \<noteq> []" and "\<forall>d \<in> set ds. d \<noteq> [] \<and> last d \<noteq> em"
  shows "read_chunks em acc (map Data ds @ Data (body @ [em]) # evs) =
           (Return (acc @ ds @ [body]), evs)"
    and "read_chunks em acc (map Data ds @ Data [] # evs) = (Return (acc @ ds), evs)"
  using assms by (induction ds arbitrary: acc) simp_all

lemma readToEndMarker_connected:
  assumes "sock c = Some Connected"
  shows "readToEndMarker (c, w) =
    (case read_chunks (endMark c) [] (recvs w) of
       (Return msgChunks, evs) \<Rightarrow> (Return (concat msgChunks), (c, w\<lparr>recvs := evs\<rparr>))
     | (Raise e, evs) \<Rightarrow> (Raise e, (c, w\<lparr>recvs := evs\<rparr>))
     | (Hang, evs) \<Rightarrow> (Hang, (c, w\<lparr>recvs := evs\<rparr>)))"
  using assms by (simp add: readToEndMarker_def)

lemma invokeRPC_first_reply:
  assumes "sock c = Some Connected" and "sends w = True # ss"
    and "readToEndMarker (c, w\<lparr>sends := ss, wire := wire w @ [makeRequest name params False]\<rparr>) =
           (Return msg, s')"
    and "msg \<noteq> []"
  shows "VistA_invokeRPC name params (c, w) = (Return msg, s')"
  using assms
  by (simp add: VistA_invokeRPC_def invokeRPC_def bind_def attempt_def VistA_makeRequest_def
      ret_def except_socket_error_def sock_send_def)

text \<open>
  C4 (as amended). What \<open>readToEndMarker\<close> returns on a connected socket, and
  \<open>invokeRPC\<close> with it. If a chunk ends with the end marker, the reply is the
  accumulation of the chunks up to it, without that marker and without the first two
  characters of the first chunk when it starts with NUL: the first conjunct for a reply of
  several chunks, the third for a reply of one chunk. If the peer closes the connection
  first (the empty chunk), the reply is what has been accumulated until then, and no
  exception is raised: the second conjunct, and the fourth when nothing has been
  accumulated. The last conjunct: when the first read of \<open>invokeRPC\<close> returns a reply
  that is not empty, \<open>invokeRPC\<close> returns that reply, complete or not.
\<close>

theorem readToEndMarker_reply:
  assumes "sock c = Some Connected"
  shows
   "(first \<noteq> [] \<and> (\<forall>d \<in> set ((if hd first = CHR 0x00 then drop 2 first else first) # ds).
        d \<noteq> [] \<and> last d \<noteq> endMark c) \<and>
     recvs w = Data first # map Data ds @ Data (body @ [endMark c]) # evs \<longrightarrow>
       readToEndMarker (c, w) =
         (Return (concat ((if hd first = CHR 0x00 then drop 2 first else first) # ds) @ body),
          (c, w\<lparr>recvs := evs\<rparr>))) \<and>
    (first \<noteq> [] \<and> (\<forall>d \<in> set ((if hd first = CHR 0x00 then drop 2 first else first) # ds).
        d \<noteq> [] \<and> last d \<noteq> endMark c) \<and>
     recvs w = Data first # map Data ds @ Data [] # evs \<longrightarrow>
       readToEndMarker (c, w) =
         (Return (concat ((if hd first = CHR 0x00 then drop 2 first else first) # ds)),
          (c, w\<lparr>recvs := evs\<rparr>))) \<and>
    (first \<noteq> [] \<and> (if hd first = CHR 0x00 then drop 2 first else first) = body @ [endMark c] \<and>
     recvs w = Data first # evs \<longrightarrow>
       readToEndMarker (c, w) = (Return body, (c, w\<lparr>recvs := evs\<rparr>))) \<and>
    (recvs w = Data [] # evs \<longrightarrow>
       readToEndMarker (c, w) = (Return [], (c, w\<lparr>recvs := evs\<rparr>))) \<and>
    (sends w = True # ss \<and>
     readToEndMarker (c, w\<lparr>sends := ss, wire := wire w @ [makeRequest name params False]\<rparr>) =
       (Return msg, s') \<and> msg \<noteq> [] \<longrightarrow>
       VistA_invokeRPC name params (c, w) = (Return msg, s'))"
proof -
  let ?f = "if hd first = CHR 0x00 then drop 2 first else first"
  have 1: "readToEndMarker (c, w) = (Return (concat (?f # ds) @ body), (c, w\<lparr>recvs := evs\<rparr>))"
    if "first \<noteq> []" and "\<forall>d \<in> set (?f # ds). d \<noteq> [] \<and> last d \<noteq> endMark c"
      and "recvs w = Data first # map Data ds @ Data (body @ [endMark c]) # evs"
  proof -
    from that(2) have f: "?f \<noteq> []" "last ?f \<noteq> endMark c"
      and ds: "\<forall>d \<in> set ds. d \<noteq> [] \<and> last d \<noteq> endMark c" by simp_all
    have "read_chunks (endMark c) [] (recvs w) =
        read_chunks (endMark c) [?f] (map Data ds @ Data (body @ [endMark c]) # evs)"
      using that(1,3) f by (simp add: Let_def)
    also have "\<dots> = (Return ([?f] @ ds @ [body]), evs)"
      by (rule read_chunks_more(1) [OF _ ds]) simp
    finally show ?thesis
      by (simp add: readToEndMarker_connected [OF assms])
  qed
  have 2: "readToEndMarker (c, w) = (Return (concat (?f # ds)), (c, w\<lparr>recvs := evs\<rparr>))"
    if "first \<noteq> []" and "\<forall>d \<in> set (?f # ds). d \<noteq> [] \<and> last d \<noteq> endMark c"
      and "recvs w = Data first # map Data ds @ Data [] # evs"
  proof -
    from that(2) have f: "?f \<noteq> []" "last ?f \<noteq> endMark c"
      and ds: "\<forall>d \<in> set ds. d \<noteq> [] \<and> last d \<noteq> endMark c" by simp_all
    have "read_chunks (endMark c) [] (recvs w) =
        read_chunks (endMark c) [?f] (map Data ds @ Data [] # evs)"
      using that(1,3) f by (simp add: Let_def)
    also have "\<dots> = (Return ([?f] @ ds), evs)"
      by (rule read_chunks_more(2) [OF _ ds]) simp
    finally show ?thesis
      by (simp add: readToEndMarker_connected [OF assms])
  qed
  have 3: "readToEndMarker (c, w) = (Return body, (c, w\<lparr>recvs := evs\<rparr>))"
    if "first \<noteq> []" and "?f = body @ [endMark c]" and "recvs w = Data first # evs"
  proof -
    have "read_chunks (endMark c) [] (recvs w) = (Return [body], evs)"
      using that by (simp add: Let_def)
    then show ?thesis
      by (simp add: readToEndMarker_connected [OF assms])
  qed
  have 4: "readToEndMarker (c, w) = (Return [], (c, w\<lparr>recvs := evs\<rparr>))"
    if "recvs w = Data [] # evs"
    using that by (simp add: readToEndMarker_connected [OF assms])
  from 1 2 3 4 invokeRPC_first_reply [OF assms, of w ss name params msg s']
  show ?thesis by blast
qed

theorem readToEndMarker_reply_witness:
  "readToEndMarker (scenario_connection\<lparr>sock := Some Connected\<rparr>,
      idle_world\<lparr>recvs := [Data ''12345^'', Data ''SMITH,'', Data (''J'' @ [CHR 0x04]), Data ''x'']\<rparr>) =
     (Return ''12345^SMITH,J'',
      (scenario_connection\<lparr>sock := Some Connected\<rparr>, idle_world\<lparr>recvs := [Data ''x'']\<rparr>)) \<and>
   readToEndMarker (scenario_connection\<lparr>sock := Some Connected\<rparr>,
      idle_world\<lparr>recvs := [Data ''12345^'', Data ''SMITH,'', Data [], Data ''x'']\<rparr>) =
     (Return ''12345^SMITH,'',
      (scenario_connection\<lparr>sock := Some Connected\<rparr>, idle_world\<lparr>recvs := [Data ''x'']\<rparr>)) \<and>
   readToEndMarker (scenario_connection\<lparr>sock := Some Connected\<rparr>,
      idle_world\<lparr>recvs := [Data ([CHR 0x00, CHR 0x00] @ ''accept'' @ [CHR 0x04]), Data ''x'']\<rparr>) =
     (Return ''accept'',
      (scenario_connection\<lparr>sock := Some Connected\<rparr>, idle_world\<lparr>recvs := [Data ''x'']\<rparr>)) \<and>
   readToEndMarker (scenario_connection\<lparr>sock := Some Connected\<rparr>,
      idle_world\<lparr>recvs := [Data [], Data ''x'']\<rparr>) =
     (Return [],
      (scenario_connection\<lparr>sock := Some Connected\<rparr>, idle_world\<lparr>recvs := [Data ''x'']\<rparr>)) \<and>
   VistA_invokeRPC ''ORWPT ID INFO'' [Scalar ''2'']
     (scenario_connection\<lparr>sock := Some Connected\<rparr>,
      idle_world\<lparr>sends := [True], recvs := [Data ''12345^'', Data []]\<rparr>) =
     (Return ''12345^'',
      (scenario_connection\<lparr>sock := Some Connected\<rparr>,
       idle_world\<lparr>sends := [], wire := [makeRequest ''ORWPT ID INFO'' [Scalar ''2''] False],
         recvs := []\<rparr>))"
proof -
  let ?c = "scenario_connection\<lparr>sock := Some Connected\<rparr>"
  have c: "sock ?c = Some Connected" by simp
  have em: "endMark ?c = CHR 0x04"
    by (simp add: scenario_connection_def VistARPCConnection_def)
  note inst = readToEndMarker_reply [OF c]
  have 1: "readToEndMarker (?c,
      idle_world\<lparr>recvs := [Data ''12345^'', Data ''SMITH,'', Data (''J'' @ [CHR 0x04]), Data ''x'']\<rparr>) =
     (Return ''12345^SMITH,J'', (?c, idle_world\<lparr>recvs := [Data ''x'']\<rparr>))"
    using inst [where first = "''12345^''" and ds = "[''SMITH,'']"
        and body = "''J''" and evs = "[Data ''x'']"
        and w = "idle_world\<lparr>recvs := [Data ''12345^'', Data ''SMITH,'', Data (''J'' @ [CHR 0x04]), Data ''x'']\<rparr>"]
    by (simp add: em idle_world_def)
  have 2: "readToEndMarker (?c,
      idle_world\<lparr>recvs := [Data ''12345^'', Data ''SMITH,'', Data [], Data ''x'']\<rparr>) =
     (Return ''12345^SMITH,'', (?c, idle_world\<lparr>recvs := [Data ''x'']\<rparr>))"
    using inst [where first = "''12345^''" and ds = "[''SMITH,'']" and evs = "[Data ''x'']"
        and w = "idle_world\<lparr>recvs := [Data ''12345^'', Data ''SMITH,'', Data [], Data ''x'']\<rparr>"]
    by (simp add: em idle_world_def)
  have 3: "readToEndMarker (?c,
      idle_world\<lparr>recvs := [Data ([CHR 0x00, CHR 0x00] @ ''accept'' @ [CHR 0x04]), Data ''x'']\<rparr>) =
     (Return ''accept'', (?c, idle_world\<lparr>recvs := [Data ''x'']\<rparr>))"
    using inst [where first = "[CHR 0x00, CHR 0x00] @ ''accept'' @ [CHR 0x04]"
        and body = "''accept''" and evs = "[Data ''x'']"
        and w = "idle_world\<lparr>recvs := [Data ([CHR 0x00, CHR 0x00] @ ''accept'' @ [CHR 0x04]), Data ''x'']\<rparr>"]
    by (simp add: em idle_world_def)
  have 4: "readToEndMarker (?c, idle_world\<lparr>recvs := [Data [], Data ''x'']\<rparr>) =
     (Return [], (?c, idle_world\<lparr>recvs := [Data ''x'']\<rparr>))"
    using inst [where evs = "[Data ''x'']" and w = "idle_world\<lparr>recvs := [Data [], Data ''x'']\<rparr>"]
    by (simp add: idle_world_def)
  have 5: "VistA_invokeRPC ''ORWPT ID INFO'' [Scalar ''2'']
     (?c, idle_world\<lparr>sends := [True], recvs := [Data ''12345^'', Data []]\<rparr>) =
     (Return ''12345^'',
      (?c, idle_world\<lparr>sends := [], wire := [makeRequest ''ORWPT ID INFO'' [Scalar ''2''] False],
         recvs := []\<rparr>))"
    using inst [where ss = "[]" and name = "''ORWPT ID INFO''"
        and params = "[Scalar ''2'']" and msg = "''12345^''"
        and w = "idle_world\<lparr>sends := [True], recvs := [Data ''12345^'', Data []]\<rparr>"
        and s' = "(?c, idle_world\<lparr>sends := [],
         wire := [makeRequest ''ORWPT ID INFO'' [Scalar ''2''] False], recvs := []\<rparr>)"]
    by (simp add: readToEndMarker_def em idle_world_def)
  from 1 2 3 4 5 show ?thesis by blast
qed

text \<open>
  The claim as written says that a reply is never partial: that an exception is raised when
  the peer closes the connection before the end marker is seen. Here the broker sends a
  chunk without the end marker and closes the connection: \<open>invokeRPC\<close> returns the
  chunk.
\<close>

theorem invokeRPC_returns_partial_reply:
  "VistA_invokeRPC ''ORWPT ID INFO'' [Scalar ''2'']
     (scenario_connection\<lparr>sock := Some Connected\<rparr>,
      idle_world\<lparr>sends := [True], recvs := [Data ''12345^SMITH,J'', Data []]\<rparr>) =
   (Return ''12345^SMITH,J'',
    (scenario_connection\<lparr>sock := Some Connected\<rparr>,
     idle_world\<lparr>wire := [makeRequest ''ORWPT ID INFO'' [Scalar ''2''] False]\<rparr>))"
  by code_simp

subsection \<open>One retry\<close>

text \<open>The number of connections opened.\<close>

lemma bind_opened_same:
  assumes "\<And>s. opened (snd (snd (m s))) = opened (snd s)"
    and "\<And>v s. opened (snd (snd (f v s))) = opened (snd s)"
  shows "opened (snd (snd (bind m f s))) = opened (snd s)"
proof -
  obtain r1 s1 where ms: "m s = (r1, s1)" by (metis surj_pair)
  with assms(1) [of s] have "opened (snd s1) = opened (snd s)" by simp
  with ms assms(2) show ?thesis
    by (cases r1) (simp_all add: bind_def)
qed

lemma bind_opened_le:
  assumes "\<And>s. opened (snd (snd (m s))) \<le> opened (snd s) + k"
    and "\<And>v s. opened (snd (snd (f v s))) = opened (snd s)"
  shows "opened (snd (snd (bind m f s))) \<le> opened (snd s) + k"
proof -
  obtain r1 s1 where ms: "m s = (r1, s1)" by (metis surj_pair)
  with assms(1) [of s] have "opened (snd s1) \<le> opened (snd s) + k" by simp
  with ms assms(2) show ?thesis
    by (cases r1) (simp_all add: bind_def)
qed

lemma sock_send_opened: "opened (snd (snd (sock_send x s))) = opened (snd s)"
  by (cases s) (simp add: sock_send_def split: option.splits sock_state.splits list.splits)

lemma readToEndMarker_opened: "opened (snd (snd (readToEndMarker s))) = opened (snd s)"
  by (cases s)
    (simp add: readToEndMarker_def split: option.splits sock_state.splits prod.splits result.splits)

lemma exchange_opened: "opened (snd (snd (exchange x s))) = opened (snd s)"
  unfolding exchange_def by (rule bind_opened_same) (rule sock_send_opened readToEndMarker_opened)+

lemma self_encrypt_opened: "opened (snd (snd (self_encrypt f s))) = opened (snd s)"
  by (cases s) (simp add: self_encrypt_def split: prod.splits)

lemma gethost_opened: "opened (snd (snd (gethostbyname_gethostname s))) = opened (snd s)"
  by (cases s) (simp add: gethostbyname_gethostname_def split: option.splits)

lemma RPCConnection_connect_opened:
  "opened (snd (snd (RPCConnection_connect s))) \<le> opened (snd s) + 1"
  by (cases s) (simp add: RPCConnection_connect_def Let_def split: list.splits)

lemma raise_opened: "opened (snd (snd (raise e s))) = opened (snd s)"
  by (simp add: raise_def)

lemma ret_opened: "opened (snd (snd (ret v s))) = opened (snd s)"
  by (simp add: ret_def)

lemma step_TCPConnect_opened: "opened (snd (snd (step_TCPConnect s))) \<le> opened (snd s) + 1"
  unfolding step_TCPConnect_def
  by (rule bind_opened_le, rule RPCConnection_connect_opened, rule bind_opened_same,
      rule gethost_opened, rule exchange_opened)

lemma step_SIGNON_SETUP_opened: "opened (snd (snd (step_SIGNON_SETUP s))) = opened (snd s)"
  unfolding step_SIGNON_SETUP_def by (rule exchange_opened)

lemma step_AV_CODE_opened: "opened (snd (snd (step_AV_CODE s))) = opened (snd s)"
  unfolding step_AV_CODE_def
  by (rule bind_opened_same, rule self_encrypt_opened, rule exchange_opened)

lemma step_CREATE_CONTEXT_opened: "opened (snd (snd (step_CREATE_CONTEXT s))) = opened (snd s)"
  unfolding step_CREATE_CONTEXT_def
  by (rule bind_opened_same, rule self_encrypt_opened, rule exchange_opened)

lemma if_opened:
  assumes "opened (snd (snd (a s))) = opened (snd s)" and "opened (snd (snd (b s))) = opened (snd s)"
  shows "opened (snd (snd ((if P then a else b) s))) = opened (snd s)"
  using assms by simp

lemma VistA_connect_opened: "opened (snd (snd (VistA_connect s))) \<le> opened (snd s) + 1"
  unfolding VistA_connect_def
  apply (rule bind_opened_le)
   apply (rule step_TCPConnect_opened)
  apply (rule if_opened)
   apply (rule raise_opened)
  apply (rule bind_opened_same)
   apply (rule step_SIGNON_SETUP_opened)
  apply (rule bind_opened_same)
   apply (rule step_AV_CODE_opened)
  apply (rule if_opened)
   apply (rule raise_opened)
  apply (rule bind_opened_same)
   apply (rule step_CREATE_CONTEXT_opened)
  apply (rule if_opened)
   apply (rule raise_opened)
  apply (rule ret_opened)
  done

lemma attempt_opened:
  "opened (snd (snd (attempt VistA_makeRequest name params s))) = opened (snd s)"
  unfolding attempt_def VistA_makeRequest_def
  by (rule bind_opened_same, rule ret_opened, rule bind_opened_same, rule sock_send_opened,
      rule readToEndMarker_opened)

lemma retry_opened:
  "opened (snd (snd (bind VistA_connect (\<lambda>_. attempt VistA_makeRequest name params) s))) \<le>
     opened (snd s) + 1"
  by (rule bind_opened_le, rule VistA_connect_opened, rule attempt_opened)

lemma invokeRPC_retry:
  assumes "(if sock c = None then connect (c, w) else (Return (), (c, w))) = (Return (), s0)"
    and "attempt mk name params s0 = (r1, s1)"
    and "r1 = Raise SocketError \<or> r1 = Return []"
  shows "invokeRPC connect mk name params (c, w) =
           bind connect (\<lambda>_. attempt mk name params) s1"
proof -
  from assms(2,3) have "except_socket_error (attempt mk name params) s0 = (Return [], s1)"
    by (auto simp: except_socket_error_def)
  with assms(1) show ?thesis
    by (simp add: invokeRPC_def bind_def)
qed

text \<open>
  C1 (as amended). Let \<open>s0\<close> be the state in which the first attempt starts (after
  the \<open>connect\<close> of a transport that had no socket), and let the first attempt end in
  \<open>s1\<close> with a socket error or with an empty reply. Then \<open>invokeRPC\<close> is one
  \<open>connect\<close>, with its handshake, followed by one more attempt with the same name
  and parameters, and nothing else: if that \<open>connect\<close> raises, the error is the
  outcome; if it returns, the outcome of the second attempt is the outcome of the call,
  an error when it raises and the reply when it returns, the empty reply included. At most
  one TCP connection is opened after \<open>s0\<close>, so there is no second retry.
\<close>

theorem invokeRPC_one_retry:
  assumes "(if sock c = None then VistA_connect (c, w) else (Return (), (c, w))) = (Return (), s0)"
    and "attempt VistA_makeRequest name params s0 = (r1, s1)"
    and "r1 = Raise SocketError \<or> r1 = Return []"
  shows "VistA_invokeRPC name params (c, w) =
           bind VistA_connect (\<lambda>_. attempt VistA_makeRequest name params) s1 \<and>
         (\<forall>e s2. VistA_connect s1 = (Raise e, s2) \<longrightarrow>
            VistA_invokeRPC name params (c, w) = (Raise e, s2)) \<and>
         (\<forall>s2. VistA_connect s1 = (Return (), s2) \<longrightarrow>
            VistA_invokeRPC name params (c, w) = attempt VistA_makeRequest name params s2) \<and>
         opened (snd (snd (VistA_invokeRPC name params (c, w)))) \<le> opened (snd s0) + 1"
proof -
  have eq: "VistA_invokeRPC name params (c, w) =
      bind VistA_connect (\<lambda>_. attempt VistA_makeRequest name params) s1"
    unfolding VistA_invokeRPC_def using assms by (rule invokeRPC_retry)
  have "opened (snd s1) = opened (snd s0)"
    using attempt_opened [of name params s0] assms(2) by simp
  with retry_opened [of name params s1] eq
  have "opened (snd (snd (VistA_invokeRPC name params (c, w)))) \<le> opened (snd s0) + 1"
    by simp
  with eq show ?thesis
    by (simp add: bind_Return bind_Raise)
qed

theorem invokeRPC_one_retry_witness:
  "VistA_invokeRPC ''ORWPT ID INFO'' [Scalar ''2'']
     (scenario_connection\<lparr>sock := Some Connected\<rparr>,
      stale_world (Data (''12345^SMITH,J'' @ [CHR 0x04]))) =
     attempt VistA_makeRequest ''ORWPT ID INFO'' [Scalar ''2'']
       (snd (VistA_connect (snd (attempt VistA_makeRequest ''ORWPT ID INFO'' [Scalar ''2'']
         (scenario_connection\<lparr>sock := Some Connected\<rparr>,
          stale_world (Data (''12345^SMITH,J'' @ [CHR 0x04]))))))) \<and>
   fst (VistA_invokeRPC ''ORWPT ID INFO'' [Scalar ''2'']
     (scenario_connection\<lparr>sock := Some Connected\<rparr>,
      stale_world (Data (''12345^SMITH,J'' @ [CHR 0x04])))) = Return ''12345^SMITH,J'' \<and>
   opened (snd (snd (VistA_invokeRPC ''ORWPT ID INFO'' [Scalar ''2'']
     (scenario_connection\<lparr>sock := Some Connected\<rparr>,
      stale_world (Data (''12345^SMITH,J'' @ [CHR 0x04])))))) \<le> 0 + 1"
proof -
  let ?c = "scenario_connection\<lparr>sock := Some Connected\<rparr>"
  let ?w = "stale_world (Data (''12345^SMITH,J'' @ [CHR 0x04]))"
  let ?s1 = "snd (attempt VistA_makeRequest ''ORWPT ID INFO'' [Scalar ''2''] (?c, ?w))"
  let ?s2 = "snd (VistA_connect ?s1)"
  have h1: "(if sock ?c = None then VistA_connect (?c, ?w) else (Return (), (?c, ?w))) =
      (Return (), (?c, ?w))" by simp
  have h2: "attempt VistA_makeRequest ''ORWPT ID INFO'' [Scalar ''2''] (?c, ?w) = (Return [], ?s1)"
    by code_simp
  have h3: "(Return [] :: string result) = Raise SocketError \<or>
      (Return [] :: string result) = Return []"
    by simp
  have h4: "VistA_connect ?s1 = (Return (), ?s2)"
    by code_simp
  have h5: "fst (attempt VistA_makeRequest ''ORWPT ID INFO'' [Scalar ''2''] ?s2) =
      Return ''12345^SMITH,J''"
    by code_simp
  have h6: "opened (snd (?c, ?w)) = 0"
    by (simp add: stale_world_def idle_world_def)
  note inst = invokeRPC_one_retry [OF h1 h2 h3]
  from inst have "\<forall>s2. VistA_connect ?s1 = (Return (), s2) \<longrightarrow>
      VistA_invokeRPC ''ORWPT ID INFO'' [Scalar ''2''] (?c, ?w) =
        attempt VistA_makeRequest ''ORWPT ID INFO'' [Scalar ''2''] s2"
    by blast
  with h4 have e: "VistA_invokeRPC ''ORWPT ID INFO'' [Scalar ''2''] (?c, ?w) =
      attempt VistA_makeRequest ''ORWPT ID INFO'' [Scalar ''2''] ?s2"
    by blast
  from h5 have f: "fst (VistA_invokeRPC ''ORWPT ID INFO'' [Scalar ''2''] (?c, ?w)) =
      Return ''12345^SMITH,J''"
    by (simp only: e)
  from inst have "opened (snd (snd (VistA_invokeRPC ''ORWPT ID INFO'' [Scalar ''2''] (?c, ?w)))) \<le>
      opened (snd (?c, ?w)) + 1"
    by blast
  then have g: "opened (snd (snd (VistA_invokeRPC ''ORWPT ID INFO'' [Scalar ''2''] (?c, ?w)))) \<le>
      0 + 1"
    by (simp only: h6)
  from e f g show ?thesis by (intro conjI)
qed

text \<open>
  The claim as written says that two empty replies in a row make \<open>invokeRPC\<close> raise.
  The reply of the retry is returned as it is: here the first read finds the connection
  closed, the reconnection and its handshake succeed, the second read finds the connection
  closed again, and \<open>invokeRPC\<close> returns the empty text, having opened one connection.
\<close>

theorem invokeRPC_returns_second_empty_reply:
  "fst (VistA_invokeRPC ''ORWPT ID INFO'' [Scalar ''2'']
     (scenario_connection\<lparr>sock := Some Connected\<rparr>, stale_world (Data []))) = Return [] \<and>
   opened (snd (snd (VistA_invokeRPC ''ORWPT ID INFO'' [Scalar ''2'']
     (scenario_connection\<lparr>sock := Some Connected\<rparr>, stale_world (Data []))))) = 1 \<and>
   recvs (snd (snd (VistA_invokeRPC ''ORWPT ID INFO'' [Scalar ''2'']
     (scenario_connection\<lparr>sock := Some Connected\<rparr>, stale_world (Data []))))) = []"
  by code_simp

subsection \<open>A failed handshake\<close>

text \<open>What the steps of the handshake raise, and the socket after a reply.\<close>

lemma sock_send_Raise: "sock_send x s = (Raise e, s') \<Longrightarrow> e = SocketError \<or> e = AttributeError"
  by (cases s)
    (auto simp: sock_send_def split: option.splits sock_state.splits list.splits if_splits)

lemma readToEndMarker_Return:
  "readToEndMarker s = (Return r, s') \<Longrightarrow> sock (fst s') = Some Connected"
  by (cases s)
    (auto simp: readToEndMarker_def
      split: option.splits sock_state.splits prod.splits result.splits)

lemma read_chunks_Raise:
  "read_chunks em acc evs = (Raise e, evs') \<Longrightarrow> e = SocketError \<or> e = IndexError"
proof (induction em acc evs rule: read_chunks.induct)
  case (3 em msgChunks msgChunk evs)
  then show ?case
    by (auto simp: Let_def split: if_splits)
qed simp_all

lemma readToEndMarker_Raise:
  "readToEndMarker s = (Raise e, s') \<Longrightarrow> e = SocketError \<or> e = IndexError \<or> e = AttributeError"
  by (cases s)
    (auto simp: readToEndMarker_def dest: read_chunks_Raise
      split: option.splits sock_state.splits prod.splits result.splits)

lemma exchange_Return: "exchange x s = (Return r, s') \<Longrightarrow> sock (fst s') = Some Connected"
  unfolding exchange_def by (erule bind_cases) (auto dest: readToEndMarker_Return)

lemma exchange_Raise: "exchange x s = (Raise e, s') \<Longrightarrow> e \<noteq> Exception t m"
  unfolding exchange_def
  by (erule bind_cases) (auto dest: readToEndMarker_Raise sock_send_Raise)

lemma RPCConnection_connect_Raise: "RPCConnection_connect s = (Raise e, s') \<Longrightarrow> e = SocketError"
  by (cases s) (auto simp: RPCConnection_connect_def Let_def split: list.splits if_splits)

lemma gethost_Raise: "gethostbyname_gethostname s = (Raise e, s') \<Longrightarrow> e = SocketError"
  by (cases s) (auto simp: gethostbyname_gethostname_def split: option.splits)

lemma encrypt_no_Raise: "fst (encrypt rs val) \<noteq> Raise e"
proof (cases "pick_rows rs")
  case None
  then show ?thesis by (simp add: encrypt_def)
next
  case (Some p)
  obtain a b rs' where "p = (a, b, rs')" by (cases p)
  with Some encrypt_picked [of rs a b rs' val] show ?thesis by simp
qed

lemma self_encrypt_Raise: "self_encrypt f s = (Raise e, s') \<Longrightarrow> False"
proof -
  assume a: "self_encrypt f s = (Raise e, s')"
  obtain c w where s: "s = (c, w)" by (cases s)
  obtain r rs where enc: "encrypt (rands w) (f c) = (r, rs)" by (metis surj_pair)
  with a s have "r = Raise e" by (simp add: self_encrypt_def)
  with enc encrypt_no_Raise [of "rands w" "f c" e] show False by simp
qed

lemma step_TCPConnect_Return:
  "step_TCPConnect s = (Return r, s') \<Longrightarrow> sock (fst s') = Some Connected"
  unfolding step_TCPConnect_def
  by (elim bind_cases) (auto dest: exchange_Return)

lemma step_TCPConnect_Raise: "step_TCPConnect s = (Raise e, s') \<Longrightarrow> e \<noteq> Exception t m"
  unfolding step_TCPConnect_def
  by (elim bind_cases) (auto dest: exchange_Raise RPCConnection_connect_Raise gethost_Raise)

lemma step_SIGNON_SETUP_Return:
  "step_SIGNON_SETUP s = (Return r, s') \<Longrightarrow> sock (fst s') = Some Connected"
  unfolding step_SIGNON_SETUP_def by (rule exchange_Return)

lemma step_SIGNON_SETUP_Raise: "step_SIGNON_SETUP s = (Raise e, s') \<Longrightarrow> e \<noteq> Exception t m"
  unfolding step_SIGNON_SETUP_def by (rule exchange_Raise)

lemma step_AV_CODE_Return:
  "step_AV_CODE s = (Return r, s') \<Longrightarrow> sock (fst s') = Some Connected"
  unfolding step_AV_CODE_def
  by (elim bind_cases) (auto dest: exchange_Return)

lemma step_AV_CODE_Raise: "step_AV_CODE s = (Raise e, s') \<Longrightarrow> e \<noteq> Exception t m"
  unfolding step_AV_CODE_def
  by (elim bind_cases) (auto dest: exchange_Raise self_encrypt_Raise)

lemma step_CREATE_CONTEXT_Return:
  "step_CREATE_CONTEXT s = (Return r, s') \<Longrightarrow> sock (fst s') = Some Connected"
  unfolding step_CREATE_CONTEXT_def
  by (elim bind_cases) (auto dest: exchange_Return)

lemma step_CREATE_CONTEXT_Raise: "step_CREATE_CONTEXT s = (Raise e, s') \<Longrightarrow> e \<noteq> Exception t m"
  unfolding step_CREATE_CONTEXT_def
  by (elim bind_cases) (auto dest: exchange_Raise self_encrypt_Raise)

lemma VistA_connect_Exception_sock:
  assumes "VistA_connect s = (Raise (Exception t m), s')"
  shows "sock (fst s') = Some Connected"
proof -
  from assms [unfolded VistA_connect_def] show ?thesis
  proof (cases rule: bind_cases)
    case (Return r1 s1)
    from Return(1) have c1: "sock (fst s1) = Some Connected" by (rule step_TCPConnect_Return)
    show ?thesis
    proof (cases "prefix ''accept'' r1")
      case False
      with Return(2) c1 show ?thesis by (simp add: raise_def)
    next
      case True
      with Return(2) have "bind step_SIGNON_SETUP (\<lambda>connectReply.
          bind step_AV_CODE (\<lambda>connectReply.
            if re_search ''Not a valid ACCESS CODE/VERIFY CODE pair'' connectReply
            then raise (Exception ''VistARPCConnection'' connectReply)
            else bind step_CREATE_CONTEXT (\<lambda>connectReply.
              if re_search ''Application context has not been created'' connectReply \<or>
                 re_search ''does not exist on server'' connectReply
              then raise (Exception ''VistARPCConnection'' connectReply)
              else ret ()))) s1 = (Raise (Exception t m), s')" by simp
      then show ?thesis
      proof (cases rule: bind_cases)
        case (Return r2 s2)
        from Return(2) show ?thesis
        proof (cases rule: bind_cases)
          case (Return r3 s3)
          from Return(1) have c3: "sock (fst s3) = Some Connected" by (rule step_AV_CODE_Return)
          show ?thesis
          proof (cases "re_search ''Not a valid ACCESS CODE/VERIFY CODE pair'' r3")
            case True
            with Return(2) c3 show ?thesis by (simp add: raise_def)
          next
            case False
            with Return(2) have "bind step_CREATE_CONTEXT (\<lambda>connectReply.
                if re_search ''Application context has not been created'' connectReply \<or>
                   re_search ''does not exist on server'' connectReply
                then raise (Exception ''VistARPCConnection'' connectReply)
                else ret ()) s3 = (Raise (Exception t m), s')" by simp
            then show ?thesis
            proof (cases rule: bind_cases)
              case (Return r4 s4)
              from Return(1) have "sock (fst s4) = Some Connected"
                by (rule step_CREATE_CONTEXT_Return)
              with Return(2) show ?thesis
                by (auto simp: raise_def ret_def split: if_splits)
            next
              case (Raise e)
              with step_CREATE_CONTEXT_Raise show ?thesis by blast
            next
              case Hang
              then show ?thesis by simp
            qed
          qed
        next
          case (Raise e)
          with step_AV_CODE_Raise show ?thesis by blast
        next
          case Hang
          then show ?thesis by simp
        qed
      next
        case (Raise e)
        with step_SIGNON_SETUP_Raise show ?thesis by blast
      next
        case Hang
        then show ?thesis by simp
      qed
    qed
  next
    case (Raise e)
    with step_TCPConnect_Raise show ?thesis by blast
  next
    case Hang
    then show ?thesis by simp
  qed
qed

lemma invokeRPC_on_open_socket:
  assumes "sock c \<noteq> None"
    and "attempt mk name params (c, w) = (Return msg, s')" and "msg \<noteq> []"
  shows "invokeRPC connect mk name params (c, w) = (Return msg, s')"
proof -
  from assms(1) obtain k where "sock c = Some k" by blast
  with assms(2,3) show ?thesis
    by (simp add: invokeRPC_def bind_def except_socket_error_def ret_def)
qed

text \<open>
  C3 (as amended). A handshake step whose reply fails its check makes \<open>connect\<close>
  raise the exception that carries the reply: the negotiation reply that does not start
  with \<open>accept\<close>, the credential reply that contains the invalid-pair text, the context
  reply that contains one of the two context texts. Whenever \<open>connect\<close> raises that
  exception, the transport keeps the connected socket it opened; so a following
  \<open>invokeRPC\<close> does not connect first: it sends its request on that socket, and when
  the reply is not empty it returns it, without a handshake.
\<close>

theorem VistA_connect_failed_handshake:
  "(step_TCPConnect s = (Return r1, s1) \<and> \<not> prefix ''accept'' r1 \<longrightarrow>
      VistA_connect s = (Raise (Exception ''VistARPCConnection'' r1), s1)) \<and>
   (step_TCPConnect s = (Return r1, s1) \<and> prefix ''accept'' r1 \<and>
    step_SIGNON_SETUP s1 = (Return r2, s2) \<and> step_AV_CODE s2 = (Return r3, s3) \<and>
    re_search ''Not a valid ACCESS CODE/VERIFY CODE pair'' r3 \<longrightarrow>
      VistA_connect s = (Raise (Exception ''VistARPCConnection'' r3), s3)) \<and>
   (step_TCPConnect s = (Return r1, s1) \<and> prefix ''accept'' r1 \<and>
    step_SIGNON_SETUP s1 = (Return r2, s2) \<and> step_AV_CODE s2 = (Return r3, s3) \<and>
    \<not> re_search ''Not a valid ACCESS CODE/VERIFY CODE pair'' r3 \<and>
    step_CREATE_CONTEXT s3 = (Return r4, s4) \<and>
    (re_search ''Application context has not been created'' r4 \<or>
     re_search ''does not exist on server'' r4) \<longrightarrow>
      VistA_connect s = (Raise (Exception ''VistARPCConnection'' r4), s4)) \<and>
   (VistA_connect s = (Raise (Exception t m), (c', w')) \<longrightarrow>
      sock c' = Some Connected \<and>
      (\<forall>name params msg s''.
         attempt VistA_makeRequest name params (c', w') = (Return msg, s'') \<and> msg \<noteq> [] \<longrightarrow>
         VistA_invokeRPC name params (c', w') = (Return msg, s'')))"
proof (intro conjI impI)
  assume "step_TCPConnect s = (Return r1, s1) \<and> \<not> prefix ''accept'' r1"
  then show "VistA_connect s = (Raise (Exception ''VistARPCConnection'' r1), s1)"
    by (simp add: VistA_connect_def bind_Return raise_def)
next
  assume "step_TCPConnect s = (Return r1, s1) \<and> prefix ''accept'' r1 \<and>
    step_SIGNON_SETUP s1 = (Return r2, s2) \<and> step_AV_CODE s2 = (Return r3, s3) \<and>
    re_search ''Not a valid ACCESS CODE/VERIFY CODE pair'' r3"
  then show "VistA_connect s = (Raise (Exception ''VistARPCConnection'' r3), s3)"
    by (simp add: VistA_connect_def bind_Return raise_def)
next
  assume "step_TCPConnect s = (Return r1, s1) \<and> prefix ''accept'' r1 \<and>
    step_SIGNON_SETUP s1 = (Return r2, s2) \<and> step_AV_CODE s2 = (Return r3, s3) \<and>
    \<not> re_search ''Not a valid ACCESS CODE/VERIFY CODE pair'' r3 \<and>
    step_CREATE_CONTEXT s3 = (Return r4, s4) \<and>
    (re_search ''Application context has not been created'' r4 \<or>
     re_search ''does not exist on server'' r4)"
  then show "VistA_connect s = (Raise (Exception ''VistARPCConnection'' r4), s4)"
    by (auto simp: VistA_connect_def bind_Return raise_def)
next
  assume a: "VistA_connect s = (Raise (Exception t m), (c', w'))"
  from VistA_connect_Exception_sock [OF a] show c: "sock c' = Some Connected" by simp
  show "\<forall>name params msg s''.
      attempt VistA_makeRequest name params (c', w') = (Return msg, s'') \<and> msg \<noteq> [] \<longrightarrow>
      VistA_invokeRPC name params (c', w') = (Return msg, s'')"
    unfolding VistA_invokeRPC_def using c by (auto intro: invokeRPC_on_open_socket)
qed

theorem VistA_connect_failed_handshake_witness:
  "VistA_connect (scenario_connection, refusing_world [Data (''reject'' @ [CHR 0x04])]) =
     (Raise (Exception ''VistARPCConnection'' ''reject''),
      snd (step_TCPConnect
        (scenario_connection, refusing_world [Data (''reject'' @ [CHR 0x04])]))) \<and>
   VistA_connect (scenario_connection, rejecting_world) =
     (Raise (Exception ''VistARPCConnection'' ''Not a valid ACCESS CODE/VERIFY CODE pair.''),
      snd (step_AV_CODE (snd (step_SIGNON_SETUP (snd (step_TCPConnect
        (scenario_connection, rejecting_world))))))) \<and>
   VistA_connect (scenario_connection,
       refusing_world (handshake_accepted [3 := Data (''The context does not exist on server.'' @ [CHR 0x04])])) =
     (Raise (Exception ''VistARPCConnection'' ''The context does not exist on server.''),
      snd (step_CREATE_CONTEXT (snd (step_AV_CODE (snd (step_SIGNON_SETUP (snd (step_TCPConnect
        (scenario_connection,
         refusing_world (handshake_accepted [3 := Data (''The context does not exist on server.'' @ [CHR 0x04])])))))))))) \<and>
   sock (fst (snd (step_AV_CODE (snd (step_SIGNON_SETUP (snd (step_TCPConnect
        (scenario_connection, rejecting_world)))))))) = Some Connected \<and>
   VistA_invokeRPC ''ORWPT ID INFO'' [Scalar ''2'']
     (fst (snd (step_AV_CODE (snd (step_SIGNON_SETUP (snd (step_TCPConnect
        (scenario_connection, rejecting_world))))))),
      snd (snd (step_AV_CODE (snd (step_SIGNON_SETUP (snd (step_TCPConnect
        (scenario_connection, rejecting_world)))))))) =
     (Return ''12345^SMITH,J'',
      snd (attempt VistA_makeRequest ''ORWPT ID INFO'' [Scalar ''2'']
        (snd (step_AV_CODE (snd (step_SIGNON_SETUP (snd (step_TCPConnect
          (scenario_connection, rejecting_world)))))))))"
proof -
  let ?A = "(scenario_connection, refusing_world [Data (''reject'' @ [CHR 0x04])])"
  let ?B = "(scenario_connection, rejecting_world)"
  let ?B1 = "snd (step_TCPConnect ?B)"
  let ?B2 = "snd (step_SIGNON_SETUP ?B1)"
  let ?B3 = "snd (step_AV_CODE ?B2)"
  let ?C = "(scenario_connection,
    refusing_world (handshake_accepted [3 := Data (''The context does not exist on server.'' @ [CHR 0x04])]))"
  let ?C1 = "snd (step_TCPConnect ?C)"
  let ?C2 = "snd (step_SIGNON_SETUP ?C1)"
  let ?C3 = "snd (step_AV_CODE ?C2)"
  let ?C4 = "snd (step_CREATE_CONTEXT ?C3)"
  let ?bad = "''Not a valid ACCESS CODE/VERIFY CODE pair.''"
  let ?ctx = "''The context does not exist on server.''"
  have a1: "step_TCPConnect ?A = (Return ''reject'', snd (step_TCPConnect ?A))" by code_simp
  have a2: "\<not> prefix ''accept'' ''reject''" by simp
  from VistA_connect_failed_handshake [where s = ?A and ?r1.0 = "''reject''"
      and ?s1.0 = "snd (step_TCPConnect ?A)"] a1 a2
  have A: "VistA_connect ?A =
      (Raise (Exception ''VistARPCConnection'' ''reject''), snd (step_TCPConnect ?A))"
    by blast
  have b1: "step_TCPConnect ?B = (Return ''accept'', ?B1)" by code_simp
  have ok: "prefix ''accept'' ''accept''" by simp
  have b2: "step_SIGNON_SETUP ?B1 = (Return ''SIGNON'', ?B2)" by code_simp
  have b3: "step_AV_CODE ?B2 = (Return ?bad, ?B3)" by code_simp
  have b4: "re_search ''Not a valid ACCESS CODE/VERIFY CODE pair'' ?bad" by code_simp
  from VistA_connect_failed_handshake [where s = ?B and ?r1.0 = "''accept''" and ?s1.0 = ?B1
      and ?r2.0 = "''SIGNON''" and ?s2.0 = ?B2 and ?r3.0 = ?bad and ?s3.0 = ?B3] b1 ok b2 b3 b4
  have B: "VistA_connect ?B = (Raise (Exception ''VistARPCConnection'' ?bad), ?B3)"
    by blast
  have c1: "step_TCPConnect ?C = (Return ''accept'', ?C1)" by code_simp
  have c2: "step_SIGNON_SETUP ?C1 = (Return ''SIGNON'', ?C2)" by code_simp
  have c3: "step_AV_CODE ?C2 = (Return ''1'', ?C3)" by code_simp
  have c4: "\<not> re_search ''Not a valid ACCESS CODE/VERIFY CODE pair'' ''1''" by code_simp
  have c5: "step_CREATE_CONTEXT ?C3 = (Return ?ctx, ?C4)" by code_simp
  have c6: "re_search ''does not exist on server'' ?ctx" by code_simp
  from VistA_connect_failed_handshake [where s = ?C and ?r1.0 = "''accept''" and ?s1.0 = ?C1
      and ?r2.0 = "''SIGNON''" and ?s2.0 = ?C2 and ?r3.0 = "''1''" and ?s3.0 = ?C3
      and ?r4.0 = ?ctx and ?s4.0 = ?C4] c1 ok c2 c3 c4 c5 c6
  have C: "VistA_connect ?C = (Raise (Exception ''VistARPCConnection'' ?ctx), ?C4)"
    by blast
  from B have B': "VistA_connect ?B =
      (Raise (Exception ''VistARPCConnection'' ?bad), (fst ?B3, snd ?B3))"
    by simp
  have d1: "attempt VistA_makeRequest ''ORWPT ID INFO'' [Scalar ''2''] (fst ?B3, snd ?B3) =
      (Return ''12345^SMITH,J'',
       snd (attempt VistA_makeRequest ''ORWPT ID INFO'' [Scalar ''2''] ?B3))"
    by code_simp
  have d2: "''12345^SMITH,J'' \<noteq> []" by simp
  from VistA_connect_failed_handshake [where s = ?B and t = "''VistARPCConnection''"
      and m = ?bad and c' = "fst ?B3" and w' = "snd ?B3"] B'
  have D: "sock (fst ?B3) = Some Connected"
    and E: "\<forall>name params msg s''.
         attempt VistA_makeRequest name params (fst ?B3, snd ?B3) = (Return msg, s'') \<and> msg \<noteq> [] \<longrightarrow>
         VistA_invokeRPC name params (fst ?B3, snd ?B3) = (Return msg, s'')"
    by blast+
  from E d1 d2 have F: "VistA_invokeRPC ''ORWPT ID INFO'' [Scalar ''2''] (fst ?B3, snd ?B3) =
      (Return ''12345^SMITH,J'',
       snd (attempt VistA_makeRequest ''ORWPT ID INFO'' [Scalar ''2''] ?B3))"
    by blast
  from A B C D F show ?thesis by (intro conjI)
qed

text \<open>
  The claim as written says that the failed \<open>connect\<close> leaves the transport without a
  socket and that the following \<open>invokeRPC\<close> runs the handshake again. The broker here
  rejects the credentials: \<open>connect\<close> raises, the socket of the transport is the
  connected one, and the following \<open>invokeRPC\<close> gets its reply after four messages on
  the wire (three of the handshake and the request) over the one connection that was
  opened.
\<close>

theorem failed_handshake_keeps_socket:
  "fst (VistA_connect (scenario_connection, rejecting_world)) =
     Raise (Exception ''VistARPCConnection'' ''Not a valid ACCESS CODE/VERIFY CODE pair.'') \<and>
   sock (fst (snd (VistA_connect (scenario_connection, rejecting_world)))) = Some Connected \<and>
   fst (VistA_invokeRPC ''ORWPT ID INFO'' [Scalar ''2'']
     (snd (VistA_connect (scenario_connection, rejecting_world)))) = Return ''12345^SMITH,J'' \<and>
   opened (snd (snd (VistA_invokeRPC ''ORWPT ID INFO'' [Scalar ''2'']
     (snd (VistA_connect (scenario_connection, rejecting_world)))))) = 1 \<and>
   length (wire (snd (snd (VistA_invokeRPC ''ORWPT ID INFO'' [Scalar ''2'']
     (snd (VistA_connect (scenario_connection, rejecting_world))))))) = 4"
  by code_simp

end
